theory Spec2Isabelle
  imports Complex_Main
begin

section \<open>Strings and formatting helpers of the Go runtime\<close>

text \<open>
  Go strings are byte sequences; \<^typ>\<open>string\<close> is a list of 8-bit characters, and
  \<open>len(s)\<close> is \<^term>\<open>length s\<close>.
\<close>

definition digit_char :: "nat \<Rightarrow> char" where
  "digit_char n = char_of (48 + n)"

function show_digits :: "int \<Rightarrow> string" where
  "show_digits n =
     (if n < 10 then [digit_char (nat n)]
      else show_digits (n div 10) @ [digit_char (nat (n mod 10))])"
  by pat_completeness auto
termination
  by (relation "measure nat") auto

declare show_digits.simps [simp del]

text \<open>\<open>fmt.Sprintf("%d", i)\<close>: the decimal rendering of an integer.\<close>

definition show_int :: "int \<Rightarrow> string" where
  "show_int i = (if i < 0 then CHR ''-'' # show_digits (- i) else show_digits i)"

text \<open>\<open>strings.Join(elems, sep)\<close>.\<close>

fun Join :: "string list \<Rightarrow> string \<Rightarrow> string" where
  "Join [] sep = []"
| "Join [x] sep = x"
| "Join (x # y # ys) sep = x @ sep @ Join (y # ys) sep"

text \<open>\<open>strings.HasPrefix(s, prefix)\<close>.\<close>

definition HasPrefix :: "string \<Rightarrow> string \<Rightarrow> bool" where
  "HasPrefix s p = (take (length p) s = p)"

section \<open>Regular expressions of \<open>kubectl_runner.go\<close>\<close>

text \<open>
  The two patterns of the source are anchored with \<open>^\<close> and \<open>$\<close> (no flags), so
  \<open>MatchString\<close> holds exactly when the whole string is in the language of the body.
  A character class is a list of inclusive byte ranges. Matching is by derivatives.
\<close>

type_synonym cclass = "(char \<times> char) list"

definition in_range :: "char \<Rightarrow> char \<times> char \<Rightarrow> bool" where
  "in_range c r = ((of_char (fst r) :: nat) \<le> of_char c \<and> (of_char c :: nat) \<le> of_char (snd r))"

definition in_class :: "char \<Rightarrow> cclass \<Rightarrow> bool" where
  "in_class c k = list_ex (in_range c) k"

datatype regex =
    Nul
  | Eps
  | Cls cclass
  | Seq regex regex
  | Opt regex
  | Star regex

fun nullable :: "regex \<Rightarrow> bool" where
  "nullable Nul = False"
| "nullable Eps = True"
| "nullable (Cls k) = False"
| "nullable (Seq r s) = (nullable r \<and> nullable s)"
| "nullable (Opt r) = True"
| "nullable (Star r) = True"

text \<open>
  The derivative of a sequence needs a union; it is kept as a list of alternatives
  (\<open>derivs\<close> works on the list of regexes still alive).
\<close>

fun deriv :: "char \<Rightarrow> regex \<Rightarrow> regex list" where
  "deriv c Nul = []"
| "deriv c Eps = []"
| "deriv c (Cls k) = (if in_class c k then [Eps] else [])"
| "deriv c (Seq r s) =
     map (\<lambda>r'. Seq r' s) (deriv c r) @ (if nullable r then deriv c s else [])"
| "deriv c (Opt r) = deriv c r"
| "deriv c (Star r) = map (\<lambda>r'. Seq r' (Star r)) (deriv c r)"

fun derivs :: "string \<Rightarrow> regex list \<Rightarrow> regex list" where
  "derivs [] rs = rs"
| "derivs (c # cs) rs = derivs cs (concat (map (deriv c) rs))"

definition MatchString :: "regex \<Rightarrow> string \<Rightarrow> bool" where
  "MatchString r s = list_ex nullable (derivs s [r])"

definition lower_alnum :: cclass where
  "lower_alnum = [(CHR ''a'', CHR ''z''), (CHR ''0'', CHR ''9'')]"

definition hyphen_lower_alnum :: cclass where
  "hyphen_lower_alnum = [(CHR ''-'', CHR ''-''), (CHR ''a'', CHR ''z''), (CHR ''0'', CHR ''9'')]"

text \<open>\<^verbatim>\<open>^[a-z0-9]([-a-z0-9]*[a-z0-9])?$\<close>\<close>

definition dnsLabelRegex :: regex where
  "dnsLabelRegex =
     Seq (Cls lower_alnum) (Opt (Seq (Star (Cls hyphen_lower_alnum)) (Cls lower_alnum)))"

text \<open>\<^verbatim>\<open>^[A-Za-z0-9][A-Za-z0-9._:@/-]*$\<close>\<close>

definition safeContextRegex :: regex where
  "safeContextRegex =
     Seq (Cls [(CHR ''A'', CHR ''Z''), (CHR ''a'', CHR ''z''), (CHR ''0'', CHR ''9'')])
         (Star (Cls [(CHR ''A'', CHR ''Z''), (CHR ''a'', CHR ''z''), (CHR ''0'', CHR ''9''),
                     (CHR ''.'', CHR ''.''), (CHR ''_'', CHR ''_''), (CHR '':'', CHR '':''),
                     (CHR ''@'', CHR ''@''), (CHR ''/'', CHR ''/''), (CHR ''-'', CHR ''-'')]))"

section \<open>Input validation (\<open>kubectl_runner.go\<close>)\<close>

text \<open>An \<open>error\<close> result is \<open>Some message\<close>; \<open>nil\<close> is \<open>None\<close>.\<close>

definition validateNamespace :: "string \<Rightarrow> string option" where
  "validateNamespace name =
     (if length name = 0 then Some ''namespace is required''
      else if length name > 253 \<or> \<not> MatchString dnsLabelRegex name
           then Some ''invalid namespace name''
      else None)"

definition validatePodName :: "string \<Rightarrow> string option" where
  "validatePodName name =
     (if length name = 0 then Some ''pod name is required''
      else if length name > 253 \<or> \<not> MatchString dnsLabelRegex name
           then Some ''invalid pod name''
      else None)"

definition validateContextName :: "string \<Rightarrow> string option" where
  "validateContextName name =
     (if name = [] then None
      else if HasPrefix name ''-'' then Some ''invalid context name''
      else if length name > 253 \<or> \<not> MatchString safeContextRegex name
           then Some ''invalid context name''
      else None)"

definition withContext :: "string list \<Rightarrow> string \<Rightarrow> string + string list" where
  "withContext args contextName =
     (case validateContextName contextName of
        Some err \<Rightarrow> Inl err
      | None \<Rightarrow>
          if contextName = [] then Inr args
          else Inr ([''--context'', contextName] @ args))"

section \<open>Data model (\<open>CommandResult\<close>, \<open>Namespace\<close>, \<open>Pod\<close>)\<close>

record Namespace =
  ns_Name :: string

record Pod =
  Name :: string
  Status :: string
  Ready :: string
  Restarts :: int
  Age :: string
  Node :: string
  HasOwner :: bool

text \<open>
  \<open>ParsedData interface{}\<close> holds a different Go value per operation; \<open>nil\<close> (the field
  is absent from the envelope) is \<open>None\<close>.
\<close>

datatype parsed =
    PContexts "string list"
  | PNamespaces "Namespace list"
  | PPods "Pod list"
  | PString string

record CommandResult =
  Command :: string
  Stdout :: string
  Stderr :: string
  ExitCode :: int
  DurationMs :: int
  ParsedData :: "parsed option"

section \<open>Decoded JSON shapes (\<open>kubectl_parse.go\<close>)\<close>

record ns_item =
  nsi_Name :: string

record namespaceList =
  nl_Items :: "ns_item list"

text \<open>
  A container state's \<open>Waiting\<close> and \<open>Terminated\<close> are pointers to a struct with one
  field \<open>Reason\<close>: \<open>None\<close> is the nil pointer, \<open>Some r\<close> a struct whose reason is \<open>r\<close>.
\<close>

record container_status =
  cs_Ready :: bool
  cs_RestartCount :: int
  cs_Waiting :: "string option"
  cs_Terminated :: "string option"

text \<open>
  \<open>CreationTimestamp\<close> is a \<open>time.Time\<close>: an instant in nanoseconds counted from the zero
  time (January 1, year 1, 00:00 UTC), so that \<open>IsZero\<close> is equality with 0.
  \<open>OwnerReferences\<close> keeps the \<open>Kind\<close> of each reference.
\<close>

record pod_item =
  pi_Name :: string
  pi_CreationTimestamp :: int
  pi_OwnerReferences :: "string list"
  pi_Phase :: string
  pi_Reason :: string
  pi_NodeName :: string
  pi_ContainerStatuses :: "container_status list"

record podList =
  pl_Items :: "pod_item list"

record kubeConfigView =
  kv_Contexts :: "string list"

section \<open>The process and library environment\<close>

text \<open>
  What \<open>Run\<close> observes of one external process: the error of \<open>cmd.Run()\<close>
  (\<open>ExitError c\<close> carries \<open>exitErr.ExitCode()\<close>; \<open>OtherError\<close> is any error that is not an
  \<open>*exec.ExitError\<close>), the two captured buffers, whether \<open>runCtx.Err()\<close> is
  \<open>context.DeadlineExceeded\<close> when it is read after the process has returned, and the
  elapsed wall time in nanoseconds.
\<close>

datatype run_error = NoError | ExitError int | OtherError

record proc_outcome =
  run_err :: run_error
  out_stdout :: string
  out_stderr :: string
  deadline_exceeded :: bool
  elapsed :: int

text \<open>
  The environment of the program: \<open>exec\<close> is what the operating system does with an
  argument vector and a timeout (in nanoseconds); \<open>now\<close> is the instant \<open>time.Since\<close> reads;
  the three \<open>Unmarshal\<close> fields stand for \<open>json.Unmarshal\<close> into a fresh value of the named
  struct type (\<open>Inl\<close> carries the text of the error); \<open>TrimSpace\<close> is \<open>strings.TrimSpace\<close>.
  These are library and system behaviour the repository does not define.
\<close>

record env =
  exec :: "string list \<Rightarrow> int \<Rightarrow> proc_outcome"
  now :: int
  Unmarshal_namespaceList :: "string \<Rightarrow> string + namespaceList"
  Unmarshal_podList :: "string \<Rightarrow> string + podList"
  Unmarshal_kubeConfigView :: "string \<Rightarrow> string + kubeConfigView"
  TrimSpace :: "string \<Rightarrow> string"

section \<open>Durations and \<open>float64\<close> arithmetic\<close>

text \<open>
  Go's integer division truncates toward zero and the remainder takes the sign of the
  dividend.
\<close>

definition quot :: "int \<Rightarrow> int \<Rightarrow> int" where
  "quot a b = sgn a * sgn b * (\<bar>a\<bar> div \<bar>b\<bar>)"

definition rem :: "int \<Rightarrow> int \<Rightarrow> int" where
  "rem a b = a - b * quot a b"

text \<open>A 64-bit signed integer wraps around on overflow.\<close>

definition wrap64 :: "int \<Rightarrow> int" where
  "wrap64 x = (x + 2 ^ 63) mod 2 ^ 64 - 2 ^ 63"

text \<open>
  \<open>t.Sub(u)\<close> saturates at the largest and smallest \<open>Duration\<close>; \<open>time.Since(t)\<close> is
  \<open>time.Now().Sub(t)\<close>.
\<close>

definition Since :: "int \<Rightarrow> int \<Rightarrow> int" where
  "Since now_t t = max (- (2 ^ 63)) (min (2 ^ 63 - 1) (now_t - t))"

text \<open>
  A \<open>float64\<close> is modelled by the rational it denotes. \<open>f64\<close> rounds a rational to the
  nearest number with a 53-bit significand, ties to even (IEEE 754 binary64,
  round-to-nearest-even). The exponent range is not enforced: every value the age
  formatter computes has magnitude between \<open>2\<^sup>-\<^sup>6\<^sup>4\<close> and \<open>2\<^sup>6\<^sup>4\<close>, or is 0.
\<close>

function bitlen :: "int \<Rightarrow> int" where
  "bitlen n = (if n \<le> 0 then 0 else 1 + bitlen (n div 2))"
  by pat_completeness auto
termination
  by (relation "measure nat") auto

declare bitlen.simps [simp del]

definition pow2 :: "int \<Rightarrow> rat" where
  "pow2 e = (if 0 \<le> e then 2 ^ nat e else 1 / 2 ^ nat (- e))"

text \<open>For \<open>q > 0\<close>: the exponent \<open>e\<close> with \<open>2\<^sup>e \<le> q < 2\<^sup>e\<^sup>+\<^sup>1\<close>.\<close>

definition f64_exponent :: "rat \<Rightarrow> int" where
  "f64_exponent q =
     (let (a, b) = quotient_of q;
          e0 = bitlen a - bitlen b
      in if pow2 e0 \<le> q then e0 else e0 - 1)"

definition round_even :: "rat \<Rightarrow> int" where
  "round_even x =
     (let f = \<lfloor>x\<rfloor>; r = x - of_int f
      in if r < 1 / 2 then f
         else if 1 / 2 < r then f + 1
         else if even f then f
         else f + 1)"

definition f64 :: "rat \<Rightarrow> rat" where
  "f64 q =
     (if q = 0 then 0
      else let m = \<bar>q\<bar>; e = f64_exponent m
           in sgn q * of_int (round_even (m * pow2 (52 - e))) * pow2 (e - 52))"

text \<open>Conversion \<open>int(f)\<close> of a \<open>float64\<close> to an integer truncates toward zero.\<close>

definition trunc_int :: "rat \<Rightarrow> int" where
  "trunc_int x = (if 0 \<le> x then \<lfloor>x\<rfloor> else \<lceil>x\<rceil>)"

definition Second :: int where "Second = 1000000000"
definition Minute :: int where "Minute = 60 * Second"
definition Hour :: int where "Hour = 60 * Minute"

text \<open>
  \<open>Duration.Seconds\<close>, \<open>Minutes\<close> and \<open>Hours\<close> of package \<open>time\<close>: the whole units are
  converted and the fractional part is added in floating point,
  \<^verbatim>\<open>float64(hour) + float64(nsec)/(60*60*1e9)\<close>.
\<close>

definition Seconds :: "int \<Rightarrow> rat" where
  "Seconds d = f64 (f64 (of_int (quot d Second)) + f64 (f64 (of_int (rem d Second)) / 1000000000))"

definition Minutes :: "int \<Rightarrow> rat" where
  "Minutes d = f64 (f64 (of_int (quot d Minute)) + f64 (f64 (of_int (rem d Minute)) / 60000000000))"

definition Hours :: "int \<Rightarrow> rat" where
  "Hours d = f64 (f64 (of_int (quot d Hour)) + f64 (f64 (of_int (rem d Hour)) / 3600000000000))"

text \<open>\<open>formatAge\<close> of \<open>kubectl_parse.go\<close>; the duration is in nanoseconds.\<close>

definition formatAge :: "int \<Rightarrow> string" where
  "formatAge d =
     (if d < Minute then show_int (trunc_int (Seconds d)) @ ''s''
      else if d < Hour then show_int (trunc_int (Minutes d)) @ ''m''
      else if d < 24 * Hour then show_int (trunc_int (Hours d)) @ ''h''
      else if d < 7 * 24 * Hour then show_int (trunc_int (f64 (Hours d / 24))) @ ''d''
      else if d < 30 * 24 * Hour then show_int (trunc_int (f64 (Hours d / (24 * 7)))) @ ''w''
      else show_int (trunc_int (f64 (Hours d / (24 * 30)))) @ ''mo'')"

section \<open>Resource decoders (\<open>kubectl_parse.go\<close>)\<close>

fun namespaces_loop :: "ns_item list \<Rightarrow> Namespace list \<Rightarrow> Namespace list" where
  "namespaces_loop [] namespaces = namespaces"
| "namespaces_loop (item # items) namespaces =
     (if nsi_Name item = [] then namespaces_loop items namespaces
      else namespaces_loop items (namespaces @ [\<lparr>ns_Name = nsi_Name item\<rparr>]))"

definition parseNamespaces :: "env \<Rightarrow> string \<Rightarrow> string + Namespace list" where
  "parseNamespaces w stdout =
     (case Unmarshal_namespaceList w stdout of
        Inl err \<Rightarrow> Inl err
      | Inr list \<Rightarrow> Inr (namespaces_loop (nl_Items list) []))"

text \<open>
  The inner loop of \<open>parsePods\<close> over the container statuses; the accumulator is
  \<open>(readyCount, restarts, status)\<close>.
\<close>

fun containers_loop :: "container_status list \<Rightarrow> int \<times> int \<times> string \<Rightarrow> int \<times> int \<times> string" where
  "containers_loop [] acc = acc"
| "containers_loop (cs # rest) (readyCount, restarts, status) =
     (let readyCount1 = (if cs_Ready cs then readyCount + 1 else readyCount);
          restarts1 = wrap64 (restarts + cs_RestartCount cs);
          status1 = (case cs_Waiting cs of
                       Some r \<Rightarrow> if r \<noteq> [] then r else status
                     | None \<Rightarrow> status);
          status2 = (case cs_Terminated cs of
                       Some r \<Rightarrow> if r \<noteq> [] then r else status1
                     | None \<Rightarrow> status1)
      in containers_loop rest (readyCount1, restarts1, status2))"

text \<open>The body of the outer loop of \<open>parsePods\<close>: one decoded item to one \<open>Pod\<close>.\<close>

definition pod_of :: "int \<Rightarrow> pod_item \<Rightarrow> Pod" where
  "pod_of now_t item =
     (let status0 = (if pi_Reason item \<noteq> [] then pi_Reason item else pi_Phase item);
          (readyCount, restarts, status) =
             containers_loop (pi_ContainerStatuses item) (0, 0, status0);
          total = int (length (pi_ContainerStatuses item));
          ready = show_int readyCount @ ''/'' @ show_int total;
          age = (if pi_CreationTimestamp item \<noteq> 0
                 then formatAge (Since now_t (pi_CreationTimestamp item)) else ''-'');
          node = (if pi_NodeName item = [] then ''-'' else pi_NodeName item)
      in \<lparr>Name = pi_Name item, Status = status, Ready = ready, Restarts = restarts,
          Age = age, Node = node, HasOwner = (length (pi_OwnerReferences item) > 0)\<rparr>)"

fun pods_loop :: "int \<Rightarrow> pod_item list \<Rightarrow> Pod list \<Rightarrow> Pod list" where
  "pods_loop now_t [] pods = pods"
| "pods_loop now_t (item # items) pods = pods_loop now_t items (pods @ [pod_of now_t item])"

definition parsePods :: "env \<Rightarrow> string \<Rightarrow> string + Pod list" where
  "parsePods w stdout =
     (case Unmarshal_podList w stdout of
        Inl err \<Rightarrow> Inl err
      | Inr list \<Rightarrow> Inr (pods_loop (now w) (pl_Items list) []))"

fun contexts_loop :: "string list \<Rightarrow> string list \<Rightarrow> string list" where
  "contexts_loop [] out = out"
| "contexts_loop (ctx # rest) out =
     (if ctx \<noteq> [] then contexts_loop rest (out @ [ctx]) else contexts_loop rest out)"

definition parseContexts :: "env \<Rightarrow> string \<Rightarrow> string + string list" where
  "parseContexts w stdout =
     (case Unmarshal_kubeConfigView w stdout of
        Inl err \<Rightarrow> Inl err
      | Inr view \<Rightarrow> Inr (contexts_loop (kv_Contexts view) []))"

section \<open>The application state and the runner (\<open>app.go\<close>, \<open>kubectl_runner.go\<close>)\<close>

text \<open>
  \<open>transcript\<close> is the field of \<open>App\<close>. \<open>spawned\<close> is not a field of the source: it
  logs the argument vector of every external process the runner has started, so that
  "no process was spawned" can be stated.
\<close>

record App =
  transcript :: "CommandResult list"
  spawned :: "string list list"

definition NewApp :: App where
  "NewApp = \<lparr>transcript = [], spawned = []\<rparr>"

definition record_cr :: "CommandResult \<Rightarrow> App \<Rightarrow> App" where
  "record_cr result a =
     (let t = transcript a @ [result]
      in a\<lparr>transcript := (if length t > 200 then drop (length t - 200) t else t)\<rparr>)"

definition GetTranscript :: "App \<Rightarrow> CommandResult list" where
  "GetTranscript a = transcript a"

definition ClearTranscript :: "App \<Rightarrow> App" where
  "ClearTranscript a = a\<lparr>transcript := take 0 (transcript a)\<rparr>"

definition Run :: "env \<Rightarrow> string list \<Rightarrow> int \<Rightarrow> App \<Rightarrow> CommandResult \<times> App" where
  "Run w args timeout a =
     (let out = exec w args timeout;
          exitCode = (case run_err out of
                        NoError \<Rightarrow> 0
                      | ExitError c \<Rightarrow> c
                      | OtherError \<Rightarrow> - 1);
          stderr = (if deadline_exceeded out \<and> length (out_stderr out) = 0
                    then out_stderr out @ ''command timed out''
                    else out_stderr out)
      in (\<lparr>Command = ''kubectl '' @ Join args '' '',
           Stdout = out_stdout out,
           Stderr = stderr,
           ExitCode = exitCode,
           DurationMs = quot (elapsed out) 1000000,
           ParsedData = None\<rparr>,
          a\<lparr>spawned := spawned a @ [args]\<rparr>))"

section \<open>The command service\<close>

definition defaultTimeout :: int where
  "defaultTimeout = 15 * Second"

definition logsTimeout :: int where
  "logsTimeout = 30 * Second"

definition runKubectl :: "env \<Rightarrow> string list \<Rightarrow> int \<Rightarrow> App \<Rightarrow> CommandResult \<times> App" where
  "runKubectl w args timeout a = Run w args timeout a"

definition invalidResult :: "string list \<Rightarrow> string \<Rightarrow> CommandResult" where
  "invalidResult args err =
     \<lparr>Command = ''kubectl '' @ Join args '' '',
      Stdout = [],
      Stderr = err,
      ExitCode = - 1,
      DurationMs = 0,
      ParsedData = None\<rparr>"

definition appendParseError :: "CommandResult \<Rightarrow> string \<Rightarrow> CommandResult" where
  "appendParseError result err =
     (let r1 = (if Stderr result \<noteq> [] then result\<lparr>Stderr := Stderr result @ [CHR 0x0A]\<rparr>
                else result)
      in r1\<lparr>Stderr := Stderr r1 @ ''parse error: '' @ err\<rparr>)"

definition ListContexts :: "env \<Rightarrow> App \<Rightarrow> CommandResult \<times> App" where
  "ListContexts w a =
     (let args = [''config'', ''view'', ''-o'', ''json''];
          (result, a1) = runKubectl w args defaultTimeout a;
          result1 = (if ExitCode result = 0
                     then (case parseContexts w (Stdout result) of
                             Inl err \<Rightarrow> appendParseError result err
                           | Inr parsed \<Rightarrow> result\<lparr>ParsedData := Some (PContexts parsed)\<rparr>)
                     else result)
      in (result1, record_cr result1 a1))"

definition GetCurrentContext :: "env \<Rightarrow> App \<Rightarrow> CommandResult \<times> App" where
  "GetCurrentContext w a =
     (let args = [''config'', ''current-context''];
          (result, a1) = runKubectl w args defaultTimeout a;
          result1 = (if ExitCode result = 0
                     then result\<lparr>ParsedData := Some (PString (TrimSpace w (Stdout result)))\<rparr>
                     else result)
      in (result1, record_cr result1 a1))"

definition SetContext :: "env \<Rightarrow> string \<Rightarrow> App \<Rightarrow> CommandResult \<times> App" where
  "SetContext w name a =
     (case validateContextName name of
        Some err \<Rightarrow> (invalidResult [''config'', ''use-context'', name] err, a)
      | None \<Rightarrow>
          (let args = [''config'', ''use-context'', name];
               (result, a1) = runKubectl w args defaultTimeout a
           in (result, record_cr result a1)))"

definition ListNamespaces :: "env \<Rightarrow> string \<Rightarrow> App \<Rightarrow> CommandResult \<times> App" where
  "ListNamespaces w contextName a =
     (case withContext [''get'', ''ns'', ''-o'', ''json''] contextName of
        Inl err \<Rightarrow>
          (invalidResult [''--context'', contextName, ''get'', ''ns'', ''-o'', ''json''] err, a)
      | Inr args \<Rightarrow>
          (let (result, a1) = runKubectl w args defaultTimeout a;
               result1 = (if ExitCode result = 0
                          then (case parseNamespaces w (Stdout result) of
                                  Inl err \<Rightarrow> appendParseError result err
                                | Inr parsed \<Rightarrow> result\<lparr>ParsedData := Some (PNamespaces parsed)\<rparr>)
                          else result)
           in (result1, record_cr result1 a1)))"

definition ListPods :: "env \<Rightarrow> string \<Rightarrow> string \<Rightarrow> App \<Rightarrow> CommandResult \<times> App" where
  "ListPods w contextName namespace a =
     (case validateNamespace namespace of
        Some err \<Rightarrow> (invalidResult [''get'', ''pods'', ''-n'', namespace, ''-o'', ''json''] err, a)
      | None \<Rightarrow>
     (case withContext [''get'', ''pods'', ''-n'', namespace, ''-o'', ''json''] contextName of
        Inl err \<Rightarrow>
          (invalidResult
             [''--context'', contextName, ''get'', ''pods'', ''-n'', namespace, ''-o'', ''json''] err, a)
      | Inr args \<Rightarrow>
          (let (result, a1) = runKubectl w args defaultTimeout a;
               result1 = (if ExitCode result = 0
                          then (case parsePods w (Stdout result) of
                                  Inl err \<Rightarrow> appendParseError result err
                                | Inr parsed \<Rightarrow> result\<lparr>ParsedData := Some (PPods parsed)\<rparr>)
                          else result)
           in (result1, record_cr result1 a1))))"

definition DeletePod :: "env \<Rightarrow> string \<Rightarrow> string \<Rightarrow> string \<Rightarrow> App \<Rightarrow> CommandResult \<times> App" where
  "DeletePod w contextName namespace name a =
     (case validateNamespace namespace of
        Some err \<Rightarrow> (invalidResult [''delete'', ''pod'', name, ''-n'', namespace] err, a)
      | None \<Rightarrow>
     (case validatePodName name of
        Some err \<Rightarrow> (invalidResult [''delete'', ''pod'', name, ''-n'', namespace] err, a)
      | None \<Rightarrow>
     (case withContext [''delete'', ''pod'', name, ''-n'', namespace] contextName of
        Inl err \<Rightarrow>
          (invalidResult
             [''--context'', contextName, ''delete'', ''pod'', name, ''-n'', namespace] err, a)
      | Inr args \<Rightarrow>
          (let (result, a1) = runKubectl w args defaultTimeout a
           in (result, record_cr result a1)))))"

definition GetPodLogs :: "env \<Rightarrow> string \<Rightarrow> string \<Rightarrow> string \<Rightarrow> int \<Rightarrow> App \<Rightarrow> CommandResult \<times> App" where
  "GetPodLogs w contextName namespace name tail a =
     (case validateNamespace namespace of
        Some err \<Rightarrow> (invalidResult [''logs'', name, ''-n'', namespace] err, a)
      | None \<Rightarrow>
     (case validatePodName name of
        Some err \<Rightarrow> (invalidResult [''logs'', name, ''-n'', namespace] err, a)
      | None \<Rightarrow>
     (let tail1 = (if tail \<le> 0 then 100 else tail)
      in (case withContext [''logs'', name, ''-n'', namespace, ''--tail='' @ show_int tail1]
                 contextName of
            Inl err \<Rightarrow>
              (invalidResult [''--context'', contextName, ''logs'', name, ''-n'', namespace] err, a)
          | Inr args \<Rightarrow>
              (let (result, a1) = runKubectl w args logsTimeout a
               in (result, record_cr result a1))))))"

definition DescribePod :: "env \<Rightarrow> string \<Rightarrow> string \<Rightarrow> string \<Rightarrow> App \<Rightarrow> CommandResult \<times> App" where
  "DescribePod w contextName namespace name a =
     (case validateNamespace namespace of
        Some err \<Rightarrow> (invalidResult [''describe'', ''pod'', name, ''-n'', namespace] err, a)
      | None \<Rightarrow>
     (case validatePodName name of
        Some err \<Rightarrow> (invalidResult [''describe'', ''pod'', name, ''-n'', namespace] err, a)
      | None \<Rightarrow>
     (case withContext [''describe'', ''pod'', name, ''-n'', namespace] contextName of
        Inl err \<Rightarrow>
          (invalidResult
             [''--context'', contextName, ''describe'', ''pod'', name, ''-n'', namespace] err, a)
      | Inr args \<Rightarrow>
          (let (result, a1) = runKubectl w args defaultTimeout a
           in (result, record_cr result a1)))))"


section \<open>Sequences of appends and sample environments\<close>

text \<open>Appending the envelopes \<open>rs\<close> one after the other, oldest first.\<close>

definition record_all :: "CommandResult list \<Rightarrow> App \<Rightarrow> App" where
  "record_all rs a = foldl (\<lambda>a1 r. record_cr r a1) a rs"

text \<open>An envelope used to build sample transcripts: the \<open>i\<close>-th rejected call.\<close>

definition sample_result :: "int \<Rightarrow> CommandResult" where
  "sample_result i = invalidResult [''logs'', show_int i] ''pod name is required''"

text \<open>
  A stand-in for the library and the system, used to run the operations on concrete
  inputs. The process prints \<open>out\<close>, exits with status 0 after 42 ms and meets its
  deadline. The decoders know the texts \<open>null\<close> and \<open>{}\<close> (accepted, nothing is
  filled in), \<open>[]\<close> (a JSON array cannot be decoded into a struct) and report an
  unexpected end of input otherwise, which is what \<open>encoding/json\<close> answers for the
  texts \<open>{\<close> and the empty text.
\<close>

definition sample_outcome :: "string \<Rightarrow> proc_outcome" where
  "sample_outcome out =
     \<lparr>run_err = NoError, out_stdout = out, out_stderr = [],
      deadline_exceeded = False, elapsed = 42000000\<rparr>"

definition sample_unmarshal :: "string \<Rightarrow> 'a \<Rightarrow> string \<Rightarrow> string + 'a" where
  "sample_unmarshal ty zero s =
     (if s = ''null'' \<or> s = ''{}'' then Inr zero
      else if s = ''[]''
           then Inl (''json: cannot unmarshal array into Go value of type main.'' @ ty)
      else Inl ''unexpected end of JSON input'')"

definition sample_env :: "string \<Rightarrow> env" where
  "sample_env out =
     \<lparr>exec = (\<lambda>args timeout. sample_outcome out),
      now = 63900000000000000000,
      Unmarshal_namespaceList = sample_unmarshal ''namespaceList'' \<lparr>nl_Items = []\<rparr>,
      Unmarshal_podList = sample_unmarshal ''podList'' \<lparr>pl_Items = []\<rparr>,
      Unmarshal_kubeConfigView = sample_unmarshal ''kubeConfigView'' \<lparr>kv_Contexts = []\<rparr>,
      TrimSpace = (\<lambda>s. s)\<rparr>"

text \<open>
  The argument vector of an operation scoped to a context: the pair
  \<open>--context name\<close> comes first exactly when the name is not empty.
\<close>

definition with_context_prefix :: "string \<Rightarrow> string list \<Rightarrow> string list" where
  "with_context_prefix contextName args =
     (if contextName \<noteq> [] then [''--context'', contextName] @ args else args)"

text \<open>
  The envelope an operation returned has been appended to the transcript the operation
  started from: it was added at the end and the buffer was then cut from the front to
  its last 200 entries, so the envelope is the newest entry.
\<close>

definition recorded :: "CommandResult \<times> App \<Rightarrow> App \<Rightarrow> bool" where
  "recorded res a =
     (transcript (snd res)
        = drop (length (transcript a @ [fst res]) - 200) (transcript a @ [fst res]) \<and>
      last (transcript (snd res)) = fst res)"

text \<open>
  The operation refused its input: the envelope has exit code -1 and the application
  state, with the transcript in it, is as it was.
\<close>

definition refused :: "CommandResult \<times> App \<Rightarrow> App \<Rightarrow> bool" where
  "refused res a = (ExitCode (fst res) = - 1 \<and> snd res = a)"

section \<open>The DNS-1123 label rule, as the specification words it\<close>

definition lowercase_alphanumeric :: "char \<Rightarrow> bool" where
  "lowercase_alphanumeric c = (c \<in> set ''abcdefghijklmnopqrstuvwxyz0123456789'')"

text \<open>
  A non-empty string of lowercase alphanumerics and hyphens, not starting or ending
  with a hyphen, at most 253 characters.
\<close>

definition dns1123_label :: "string \<Rightarrow> bool" where
  "dns1123_label s =
     (s \<noteq> [] \<and>
      list_all (\<lambda>c. lowercase_alphanumeric c \<or> c = CHR ''-'') s \<and>
      hd s \<noteq> CHR ''-'' \<and> last s \<noteq> CHR ''-'' \<and>
      length s \<le> 253)"

section \<open>The language of a regular expression\<close>

text \<open>The set of strings a pattern denotes; it is the yardstick for the matcher.\<close>

inductive_set star :: "string set \<Rightarrow> string set" for L :: "string set" where
  star_nil: "[] \<in> star L"
| star_step: "u \<in> L \<Longrightarrow> v \<in> star L \<Longrightarrow> u @ v \<in> star L"

fun lang :: "regex \<Rightarrow> string set" where
  "lang Nul = {}"
| "lang Eps = {[]}"
| "lang (Cls k) = {[c] | c. in_class c k}"
| "lang (Seq r s) = {u @ v | u v. u \<in> lang r \<and> v \<in> lang s}"
| "lang (Opt r) = insert [] (lang r)"
| "lang (Star r) = star (lang r)"

text \<open>
  The validation error that \<open>DeletePod\<close>, \<open>GetPodLogs\<close> and \<open>DescribePod\<close> report for a
  namespace and a pod name: the namespace is checked first.
\<close>

definition name_error :: "string \<Rightarrow> string \<Rightarrow> string" where
  "name_error namespace name =
     (case validateNamespace namespace of
        Some err \<Rightarrow> err
      | None \<Rightarrow> (case validatePodName name of Some err \<Rightarrow> err | None \<Rightarrow> []))"

section \<open>Decode failures, as the specification words them\<close>

text \<open>
  The envelope \<open>r\<close> of a list operation whose process result was \<open>r0\<close> and whose decoder
  failed with \<open>detail\<close>: the exit code is 0, stdout is the original text, stderr is the
  original stderr followed by the line \<open>parse error: detail\<close>, and there is no parsed
  data.
\<close>

definition decode_failure_envelope :: "CommandResult \<Rightarrow> string \<Rightarrow> CommandResult \<Rightarrow> bool" where
  "decode_failure_envelope r0 detail r =
     (ExitCode r = 0 \<and>
      Stdout r = Stdout r0 \<and>
      Stderr r = (if Stderr r0 = [] then [] else Stderr r0 @ [CHR 0x0A]) @ ''parse error: '' @ detail \<and>
      ParsedData r = None \<and>
      Command r = Command r0 \<and>
      DurationMs r = DurationMs r0)"

section \<open>Pod status, as the specification words it\<close>

text \<open>
  The non-empty reasons one container contributes, in the order they are applied:
  \<open>waiting.reason\<close>, then \<open>terminated.reason\<close>.
\<close>

definition container_reasons :: "container_status \<Rightarrow> string list" where
  "container_reasons cs =
     (case cs_Waiting cs of Some r \<Rightarrow> (if r \<noteq> [] then [r] else []) | None \<Rightarrow> []) @
     (case cs_Terminated cs of Some r \<Rightarrow> (if r \<noteq> [] then [r] else []) | None \<Rightarrow> [])"

text \<open>
  The last non-empty container reason in listed order wins; without one,
  \<open>status.reason\<close> if it is not empty; otherwise \<open>status.phase\<close>.
\<close>

definition spec_status :: "pod_item \<Rightarrow> string" where
  "spec_status item =
     (let rs = concat (map container_reasons (pi_ContainerStatuses item))
      in if rs \<noteq> [] then last rs
         else if pi_Reason item \<noteq> [] then pi_Reason item
         else pi_Phase item)"

text \<open>
  A pod list as the cluster prints it: one pod in phase \<open>Running\<close> with two containers,
  the second waiting with reason \<open>CrashLoopBackOff\<close>; and the struct \<open>json.Unmarshal\<close>
  fills from it (no creation timestamp, so the zero time).
\<close>

definition crashloop_json :: string where
  "crashloop_json =
     ''{\"items\":[{\"metadata\":{\"name\":\"web-0\",\"ownerReferences\":[{\"kind\":\"ReplicaSet\"}]},'' @
     ''\"status\":{\"phase\":\"Running\",\"nodeName\":\"node-1\",\"containerStatuses\":['' @
     ''{\"ready\":true,\"restartCount\":0,\"state\":{\"running\":{}}},'' @
     ''{\"ready\":false,\"restartCount\":7,\"state\":{\"waiting\":{\"reason\":\"CrashLoopBackOff\"}}}]}}]}''"

definition crashloop_item :: pod_item where
  "crashloop_item =
     \<lparr>pi_Name = ''web-0'', pi_CreationTimestamp = 0, pi_OwnerReferences = [''ReplicaSet''],
      pi_Phase = ''Running'', pi_Reason = [], pi_NodeName = ''node-1'',
      pi_ContainerStatuses =
        [\<lparr>cs_Ready = True, cs_RestartCount = 0, cs_Waiting = None, cs_Terminated = None\<rparr>,
         \<lparr>cs_Ready = False, cs_RestartCount = 7, cs_Waiting = Some ''CrashLoopBackOff'',
          cs_Terminated = None\<rparr>]\<rparr>"

text \<open>The stand-in environment whose process prints that pod list.\<close>

definition crashloop_env :: env where
  "crashloop_env =
     (sample_env crashloop_json)\<lparr>Unmarshal_podList :=
        (\<lambda>s. if s = crashloop_json then Inr \<lparr>pl_Items = [crashloop_item]\<rparr>
             else Unmarshal_podList (sample_env crashloop_json) s)\<rparr>"

section \<open>Age buckets, as the specification words them\<close>

text \<open>
  Exclusive upper bounds, each bucket by integer division of the duration
  (in nanoseconds) by its unit.
\<close>

definition spec_formatAge :: "int \<Rightarrow> string" where
  "spec_formatAge d =
     (if d < 60 * Second then show_int (d div Second) @ ''s''
      else if d < 60 * Minute then show_int (d div Minute) @ ''m''
      else if d < 24 * Hour then show_int (d div Hour) @ ''h''
      else if d < 7 * (24 * Hour) then show_int (d div (24 * Hour)) @ ''d''
      else if d < 30 * (24 * Hour) then show_int (d div (7 * (24 * Hour))) @ ''w''
      else show_int (d div (30 * (24 * Hour))) @ ''mo'')"

section \<open>A process that finishes as its deadline passes\<close>

text \<open>
  The process exits with status 0 and prints nothing to stderr; \<open>cmd.Run()\<close> returns
  \<open>nil\<close>. The deadline of \<open>runCtx\<close> passes before \<open>Run\<close> reads \<open>runCtx.Err()\<close>, which is
  then \<open>context.DeadlineExceeded\<close>.
\<close>

definition late_exit_outcome :: proc_outcome where
  "late_exit_outcome =
     \<lparr>run_err = NoError, out_stdout = ''pod \"web-0\" deleted'', out_stderr = [],
      deadline_exceeded = True, elapsed = 15000000000\<rparr>"

definition late_exit_env :: env where
  "late_exit_env = (sample_env [])\<lparr>exec := (\<lambda>args timeout. late_exit_outcome)\<rparr>"


section \<open>The transcript buffer\<close>

lemma transcript_record_cr:
  "transcript (record_cr r a) = drop (length (transcript a @ [r]) - 200) (transcript a @ [r])"
  by (simp add: record_cr_def Let_def)

lemma spawned_record_cr: "spawned (record_cr r a) = spawned a"
  by (simp add: record_cr_def Let_def)

lemma last_transcript_record_cr: "last (transcript (record_cr r a)) = r"
  by (simp add: transcript_record_cr)

lemma transcript_record_cr_nonempty: "transcript (record_cr r a) \<noteq> []"
  by (simp add: transcript_record_cr)

lemma length_transcript_record_cr:
  "length (transcript (record_cr r a)) = min 200 (Suc (length (transcript a)))"
  by (simp add: transcript_record_cr)

lemma record_all_snoc: "record_all (rs @ [r]) a = record_cr r (record_all rs a)"
  by (simp add: record_all_def)

lemma drop_window_snoc:
  fixes t :: "'a list"
  assumes "0 < n"
  shows "drop (length (drop (length t - n) t @ [r]) - n) (drop (length t - n) t @ [r])
         = drop (length (t @ [r]) - n) (t @ [r])"
proof (cases "length t < n")
  case True
  then show ?thesis by simp
next
  case False
  then have len: "length (drop (length t - n) t) = n" by simp
  from False assms have lt: "length t - n < length t" by simp
  have "drop (length (drop (length t - n) t @ [r]) - n) (drop (length t - n) t @ [r])
        = drop 1 (drop (length t - n) t @ [r])"
    using len by simp
  also have "\<dots> = drop (Suc (length t - n)) t @ [r]"
    using lt assms by (simp add: drop_Suc tl_drop drop_append)
  also have "\<dots> = drop (length (t @ [r]) - n) (t @ [r])"
    using False assms by (simp add: Suc_diff_le)
  finally show ?thesis .
qed

lemma transcript_record_all:
  "length (transcript a) \<le> 200 \<Longrightarrow>
   transcript (record_all rs a) = drop (length (transcript a @ rs) - 200) (transcript a @ rs)"
proof (induction rs rule: rev_induct)
  case Nil
  then show ?case by (simp add: record_all_def)
next
  case (snoc r rs)
  have "transcript (record_all (rs @ [r]) a)
        = drop (length (transcript (record_all rs a) @ [r]) - 200) (transcript (record_all rs a) @ [r])"
    by (simp only: record_all_snoc transcript_record_cr)
  also have "\<dots> = drop (length ((transcript a @ rs) @ [r]) - 200) ((transcript a @ rs) @ [r])"
    using snoc drop_window_snoc [of 200 "transcript a @ rs" r] by simp
  finally show ?case by simp
qed

text \<open>
  C6. Appending adds at the end and cuts from the front: from a buffer of at most 200
  envelopes, any sequence of appends leaves at most 200, namely the last 200 of the old
  contents followed by the appended envelopes, in insertion order. From an empty buffer,
  205 appends leave exactly the last 200 appended (the first 5 are gone).
\<close>

theorem transcript_fifo_window:
  "(length (transcript a) \<le> 200 \<longrightarrow>
      length (transcript (record_all rs a)) \<le> 200 \<and>
      transcript (record_all rs a)
        = drop (length (transcript a @ rs) - 200) (transcript a @ rs)) \<and>
   (transcript a = [] \<and> length rs = 205 \<longrightarrow>
      transcript (record_all rs a) = drop 5 rs \<and>
      length (transcript (record_all rs a)) = 200)"
proof -
  have one: "length (transcript a) \<le> 200 \<Longrightarrow>
      length (transcript (record_all rs a)) \<le> 200 \<and>
      transcript (record_all rs a)
        = drop (length (transcript a @ rs) - 200) (transcript a @ rs)"
    using transcript_record_all [of a rs] by simp
  have two: "transcript a = [] \<and> length rs = 205 \<Longrightarrow>
      transcript (record_all rs a) = drop 5 rs \<and>
      length (transcript (record_all rs a)) = 200"
    using transcript_record_all [of a rs] by simp
  from one two show ?thesis by blast
qed

theorem transcript_fifo_window_witness:
  "length (transcript NewApp) \<le> 200 \<and> transcript NewApp = [] \<and>
   length (map sample_result [1..205]) = 205 \<and>
   transcript (record_all (map sample_result [1..205]) NewApp)
     = drop 5 (map sample_result [1..205]) \<and>
   length (transcript (record_all (map sample_result [1..205]) NewApp)) = 200"
proof -
  have e: "transcript NewApp = []" by (simp add: NewApp_def)
  have l: "length (map sample_result [1..205]) = 205" by simp
  from e l transcript_fifo_window [of NewApp "map sample_result [1..205]"]
  show ?thesis by simp
qed

section \<open>Argument vectors and recording\<close>

lemma Run_fst:
  "fst (Run w args timeout a) =
     \<lparr>Command = ''kubectl '' @ Join args '' '',
      Stdout = out_stdout (exec w args timeout),
      Stderr = (if deadline_exceeded (exec w args timeout) \<and> out_stderr (exec w args timeout) = []
                then ''command timed out'' else out_stderr (exec w args timeout)),
      ExitCode = (case run_err (exec w args timeout) of
                    NoError \<Rightarrow> 0 | ExitError c \<Rightarrow> c | OtherError \<Rightarrow> - 1),
      DurationMs = quot (elapsed (exec w args timeout)) 1000000,
      ParsedData = None\<rparr>"
  by (simp add: Run_def Let_def)

lemma Run_snd: "snd (Run w args timeout a) = a\<lparr>spawned := spawned a @ [args]\<rparr>"
  by (simp add: Run_def Let_def)

lemma Run_fst_state: "fst (Run w args timeout a) = fst (Run w args timeout b)"
  by (simp add: Run_def Let_def)

lemma withContext_valid:
  "validateContextName contextName = None \<Longrightarrow>
   withContext args contextName = Inr (with_context_prefix contextName args)"
  by (simp add: withContext_def with_context_prefix_def)

lemma withContext_invalid:
  "validateContextName contextName = Some e \<Longrightarrow> withContext args contextName = Inl e"
  by (simp add: withContext_def)

lemma show_int_100: "show_int 100 = ''100''"
  by code_simp

lemma spawned_after_run:
  "spawned (record_cr r (snd (Run w args timeout a))) = spawned a @ [args]"
  by (simp add: spawned_record_cr Run_snd)

lemma transcript_after_run:
  "transcript (record_cr r (snd (Run w args timeout a))) = transcript (record_cr r a)"
  by (simp add: transcript_record_cr Run_snd)

lemma ListContexts_state:
  "snd (ListContexts w a) =
     record_cr (fst (ListContexts w a))
       (snd (Run w [''config'', ''view'', ''-o'', ''json''] defaultTimeout a))"
  by (simp add: ListContexts_def runKubectl_def Let_def split: prod.splits)

lemma GetCurrentContext_state:
  "snd (GetCurrentContext w a) =
     record_cr (fst (GetCurrentContext w a))
       (snd (Run w [''config'', ''current-context''] defaultTimeout a))"
  by (simp add: GetCurrentContext_def runKubectl_def Let_def split: prod.splits)

lemma SetContext_valid:
  "validateContextName name = None \<Longrightarrow>
   SetContext w name a =
     (fst (Run w [''config'', ''use-context'', name] defaultTimeout a),
      record_cr (fst (Run w [''config'', ''use-context'', name] defaultTimeout a))
        (snd (Run w [''config'', ''use-context'', name] defaultTimeout a)))"
  by (simp add: SetContext_def runKubectl_def Let_def split: prod.splits)

lemma ListNamespaces_state:
  "validateContextName c = None \<Longrightarrow>
   snd (ListNamespaces w c a) =
     record_cr (fst (ListNamespaces w c a))
       (snd (Run w (with_context_prefix c [''get'', ''ns'', ''-o'', ''json'']) defaultTimeout a))"
  by (simp add: ListNamespaces_def withContext_valid runKubectl_def Let_def split: prod.splits)

lemma ListPods_state:
  "validateNamespace n = None \<Longrightarrow> validateContextName c = None \<Longrightarrow>
   snd (ListPods w c n a) =
     record_cr (fst (ListPods w c n a))
       (snd (Run w (with_context_prefix c [''get'', ''pods'', ''-n'', n, ''-o'', ''json''])
               defaultTimeout a))"
  by (simp add: ListPods_def withContext_valid runKubectl_def Let_def split: prod.splits)

lemma DeletePod_valid:
  "validateNamespace n = None \<Longrightarrow> validatePodName p = None \<Longrightarrow>
   validateContextName c = None \<Longrightarrow>
   DeletePod w c n p a =
     (fst (Run w (with_context_prefix c [''delete'', ''pod'', p, ''-n'', n]) defaultTimeout a),
      record_cr (fst (Run w (with_context_prefix c [''delete'', ''pod'', p, ''-n'', n]) defaultTimeout a))
        (snd (Run w (with_context_prefix c [''delete'', ''pod'', p, ''-n'', n]) defaultTimeout a)))"
  by (simp add: DeletePod_def withContext_valid runKubectl_def Let_def split: prod.splits)

lemma GetPodLogs_valid:
  "validateNamespace n = None \<Longrightarrow> validatePodName p = None \<Longrightarrow>
   validateContextName c = None \<Longrightarrow>
   GetPodLogs w c n p t a =
     (fst (Run w (with_context_prefix c
                    [''logs'', p, ''-n'', n, ''--tail='' @ show_int (if t \<le> 0 then 100 else t)])
             logsTimeout a),
      record_cr (fst (Run w (with_context_prefix c
                    [''logs'', p, ''-n'', n, ''--tail='' @ show_int (if t \<le> 0 then 100 else t)])
             logsTimeout a))
        (snd (Run w (with_context_prefix c
                    [''logs'', p, ''-n'', n, ''--tail='' @ show_int (if t \<le> 0 then 100 else t)])
             logsTimeout a)))"
  by (simp add: GetPodLogs_def withContext_valid runKubectl_def Let_def split: prod.splits)

lemma DescribePod_valid:
  "validateNamespace n = None \<Longrightarrow> validatePodName p = None \<Longrightarrow>
   validateContextName c = None \<Longrightarrow>
   DescribePod w c n p a =
     (fst (Run w (with_context_prefix c [''describe'', ''pod'', p, ''-n'', n]) defaultTimeout a),
      record_cr (fst (Run w (with_context_prefix c [''describe'', ''pod'', p, ''-n'', n]) defaultTimeout a))
        (snd (Run w (with_context_prefix c [''describe'', ''pod'', p, ''-n'', n]) defaultTimeout a)))"
  by (simp add: DescribePod_def withContext_valid runKubectl_def Let_def split: prod.splits)

text \<open>
  C9. \<open>GetPodLogs\<close> with a tail count of zero or less behaves exactly as with 100, and
  on valid inputs the one process it starts gets the argument \<open>--tail=100\<close> last.
\<close>

theorem GetPodLogs_default_tail:
  assumes "tail \<le> 0"
  shows "GetPodLogs w c n p tail a = GetPodLogs w c n p 100 a \<and>
         (validateNamespace n = None \<and> validatePodName p = None \<and> validateContextName c = None
          \<longrightarrow> spawned (snd (GetPodLogs w c n p tail a))
                = spawned a @ [with_context_prefix c [''logs'', p, ''-n'', n, ''--tail=100'']])"
proof -
  have same: "GetPodLogs w c n p tail a = GetPodLogs w c n p 100 a"
    using assms by (simp add: GetPodLogs_def)
  have args: "validateNamespace n = None \<and> validatePodName p = None \<and> validateContextName c = None
         \<longrightarrow> spawned (snd (GetPodLogs w c n p tail a))
               = spawned a @ [with_context_prefix c [''logs'', p, ''-n'', n, ''--tail=100'']]"
    using assms by (simp add: GetPodLogs_valid spawned_after_run show_int_100)
  from same args show ?thesis by blast
qed

lemma validateNamespace_default: "validateNamespace ''default'' = None"
  by code_simp

lemma validatePodName_web: "validatePodName ''web-0'' = None"
  by code_simp

lemma validateContextName_empty: "validateContextName [] = None"
  by (simp add: validateContextName_def)

lemma validateContextName_prod: "validateContextName ''prod'' = None"
  by code_simp

theorem GetPodLogs_default_tail_witness:
  "(0::int) \<le> 0 \<and>
   validateNamespace ''default'' = None \<and> validatePodName ''web-0'' = None \<and>
   validateContextName [] = None \<and>
   GetPodLogs (sample_env ''started'') [] ''default'' ''web-0'' 0 NewApp
     = GetPodLogs (sample_env ''started'') [] ''default'' ''web-0'' 100 NewApp \<and>
   spawned (snd (GetPodLogs (sample_env ''started'') [] ''default'' ''web-0'' 0 NewApp))
     = [[''logs'', ''web-0'', ''-n'', ''default'', ''--tail=100'']]"
proof -
  have t: "(0::int) \<le> 0" by simp
  note r = GetPodLogs_default_tail [OF t, of "sample_env ''started''" "[]" "''default''" "''web-0''" NewApp]
  have same: "GetPodLogs (sample_env ''started'') [] ''default'' ''web-0'' 0 NewApp
     = GetPodLogs (sample_env ''started'') [] ''default'' ''web-0'' 100 NewApp"
    by (rule conjunct1 [OF r])
  have args: "spawned (snd (GetPodLogs (sample_env ''started'') [] ''default'' ''web-0'' 0 NewApp))
     = [[''logs'', ''web-0'', ''-n'', ''default'', ''--tail=100'']]"
    using conjunct2 [OF r]
    by (simp add: validateNamespace_default validatePodName_web validateContextName_empty
        with_context_prefix_def NewApp_def)
  from t same args show ?thesis
    by (simp only: validateNamespace_default validatePodName_web validateContextName_empty simp_thms)
qed

text \<open>
  C5. On valid inputs every operation starts one process whose argument vector is the
  fixed sequence of the operation; for the five operations scoped to a context the pair
  \<open>--context name\<close> is put in front exactly when the context name is not empty
  (\<open>with_context_prefix\<close>). \<open>ListContexts\<close>, \<open>GetCurrentContext\<close> and \<open>SetContext\<close> take
  no scoping context, and the name given to \<open>SetContext\<close> is the operand of
  \<open>use-context\<close>.
\<close>

theorem argument_vectors:
  "spawned (snd (ListContexts w a)) = spawned a @ [[''config'', ''view'', ''-o'', ''json'']] \<and>
   spawned (snd (GetCurrentContext w a)) = spawned a @ [[''config'', ''current-context'']] \<and>
   (validateContextName name = None \<longrightarrow>
      spawned (snd (SetContext w name a)) = spawned a @ [[''config'', ''use-context'', name]]) \<and>
   (validateContextName c = None \<longrightarrow>
      spawned (snd (ListNamespaces w c a))
        = spawned a @ [with_context_prefix c [''get'', ''ns'', ''-o'', ''json'']]) \<and>
   (validateNamespace n = None \<and> validateContextName c = None \<longrightarrow>
      spawned (snd (ListPods w c n a))
        = spawned a @ [with_context_prefix c [''get'', ''pods'', ''-n'', n, ''-o'', ''json'']]) \<and>
   (validateNamespace n = None \<and> validatePodName p = None \<and> validateContextName c = None \<longrightarrow>
      spawned (snd (DeletePod w c n p a))
        = spawned a @ [with_context_prefix c [''delete'', ''pod'', p, ''-n'', n]] \<and>
      spawned (snd (GetPodLogs w c n p t a))
        = spawned a @ [with_context_prefix c
             [''logs'', p, ''-n'', n, ''--tail='' @ show_int (if t \<le> 0 then 100 else t)]] \<and>
      spawned (snd (DescribePod w c n p a))
        = spawned a @ [with_context_prefix c [''describe'', ''pod'', p, ''-n'', n]])"
proof -
  have c1: "spawned (snd (ListContexts w a)) = spawned a @ [[''config'', ''view'', ''-o'', ''json'']]"
    by (simp only: ListContexts_state spawned_after_run)
  have c2: "spawned (snd (GetCurrentContext w a)) = spawned a @ [[''config'', ''current-context'']]"
    by (simp only: GetCurrentContext_state spawned_after_run)
  have c3: "validateContextName name = None \<longrightarrow>
      spawned (snd (SetContext w name a)) = spawned a @ [[''config'', ''use-context'', name]]"
    by (simp add: SetContext_valid spawned_after_run)
  have c4: "validateContextName c = None \<longrightarrow>
      spawned (snd (ListNamespaces w c a))
        = spawned a @ [with_context_prefix c [''get'', ''ns'', ''-o'', ''json'']]"
    by (simp add: ListNamespaces_state spawned_after_run)
  have c5: "validateNamespace n = None \<and> validateContextName c = None \<longrightarrow>
      spawned (snd (ListPods w c n a))
        = spawned a @ [with_context_prefix c [''get'', ''pods'', ''-n'', n, ''-o'', ''json'']]"
    by (simp add: ListPods_state spawned_after_run)
  have c6: "validateNamespace n = None \<and> validatePodName p = None \<and> validateContextName c = None \<longrightarrow>
      spawned (snd (DeletePod w c n p a))
        = spawned a @ [with_context_prefix c [''delete'', ''pod'', p, ''-n'', n]]"
    by (simp add: DeletePod_valid spawned_after_run)
  have c7: "validateNamespace n = None \<and> validatePodName p = None \<and> validateContextName c = None \<longrightarrow>
      spawned (snd (GetPodLogs w c n p t a))
        = spawned a @ [with_context_prefix c
             [''logs'', p, ''-n'', n, ''--tail='' @ show_int (if t \<le> 0 then 100 else t)]]"
    by (simp add: GetPodLogs_valid spawned_after_run)
  have c8: "validateNamespace n = None \<and> validatePodName p = None \<and> validateContextName c = None \<longrightarrow>
      spawned (snd (DescribePod w c n p a))
        = spawned a @ [with_context_prefix c [''describe'', ''pod'', p, ''-n'', n]]"
    by (simp add: DescribePod_valid spawned_after_run)
  from c1 c2 c3 c4 c5 c6 c7 c8 show ?thesis by blast
qed

lemma show_int_25: "show_int 25 = ''25''"
  by code_simp

theorem argument_vectors_witness:
  "validateContextName ''prod'' = None \<and> validateNamespace ''default'' = None \<and>
   validatePodName ''web-0'' = None \<and>
   spawned (snd (SetContext (sample_env []) ''prod'' NewApp)) = [[''config'', ''use-context'', ''prod'']] \<and>
   spawned (snd (ListNamespaces (sample_env []) ''prod'' NewApp))
     = [[''--context'', ''prod'', ''get'', ''ns'', ''-o'', ''json'']] \<and>
   spawned (snd (ListPods (sample_env []) ''prod'' ''default'' NewApp))
     = [[''--context'', ''prod'', ''get'', ''pods'', ''-n'', ''default'', ''-o'', ''json'']] \<and>
   spawned (snd (DeletePod (sample_env []) ''prod'' ''default'' ''web-0'' NewApp))
     = [[''--context'', ''prod'', ''delete'', ''pod'', ''web-0'', ''-n'', ''default'']] \<and>
   spawned (snd (GetPodLogs (sample_env []) ''prod'' ''default'' ''web-0'' 25 NewApp))
     = [[''--context'', ''prod'', ''logs'', ''web-0'', ''-n'', ''default'', ''--tail=25'']] \<and>
   spawned (snd (DescribePod (sample_env []) ''prod'' ''default'' ''web-0'' NewApp))
     = [[''--context'', ''prod'', ''describe'', ''pod'', ''web-0'', ''-n'', ''default'']]"
  using argument_vectors [of "sample_env []" NewApp "''prod''" "''prod''" "''default''" "''web-0''" 25]
  by (simp add: validateNamespace_default validatePodName_web validateContextName_prod
      with_context_prefix_def NewApp_def show_int_25)

section \<open>Correctness of the matcher\<close>

lemma nullable_lang: "nullable r \<longleftrightarrow> [] \<in> lang r"
  by (induction r) (auto intro: star.intros)

lemma star_cons:
  "c # w \<in> star L \<longleftrightarrow> (\<exists>u v. c # u \<in> L \<and> v \<in> star L \<and> w = u @ v)"
proof
  assume "c # w \<in> star L"
  then show "\<exists>u v. c # u \<in> L \<and> v \<in> star L \<and> w = u @ v"
  proof (induction "c # w" arbitrary: w rule: star.induct)
    case (star_step u v)
    show ?case
    proof (cases u)
      case Nil
      with star_step(3,4) show ?thesis by simp
    next
      case (Cons d u')
      with star_step(1,2,4) show ?thesis by auto
    qed
  qed
next
  assume "\<exists>u v. c # u \<in> L \<and> v \<in> star L \<and> w = u @ v"
  then obtain u v where "c # u \<in> L" "v \<in> star L" "w = u @ v" by blast
  then show "c # w \<in> star L"
    using star.star_step [of "c # u" L v] by simp
qed

lemma bex_map_Seq:
  "(\<exists>x \<in> set (map (\<lambda>r'. Seq r' s) rs). w \<in> lang x)
   \<longleftrightarrow> (\<exists>u v. (\<exists>r' \<in> set rs. u \<in> lang r') \<and> v \<in> lang s \<and> w = u @ v)"
  by (induction rs) auto

lemma deriv_lang: "(\<exists>r' \<in> set (deriv c r). w \<in> lang r') \<longleftrightarrow> c # w \<in> lang r"
proof (induction r arbitrary: w)
  case (Seq r s)
  have "c # w \<in> lang (Seq r s) \<longleftrightarrow>
        (\<exists>u v. u \<in> lang r \<and> v \<in> lang s \<and> c # w = u @ v)"
    by auto
  also have "\<dots> \<longleftrightarrow> ([] \<in> lang r \<and> c # w \<in> lang s) \<or>
        (\<exists>u' v. c # u' \<in> lang r \<and> v \<in> lang s \<and> w = u' @ v)"
    by (auto simp: Cons_eq_append_conv)
  also have "\<dots> \<longleftrightarrow> (nullable r \<and> (\<exists>r' \<in> set (deriv c s). w \<in> lang r')) \<or>
        (\<exists>u' v. (\<exists>r' \<in> set (deriv c r). u' \<in> lang r') \<and> v \<in> lang s \<and> w = u' @ v)"
    using Seq by (simp add: nullable_lang)
  also have "\<dots> \<longleftrightarrow> (nullable r \<and> (\<exists>r' \<in> set (deriv c s). w \<in> lang r')) \<or>
        (\<exists>x \<in> set (map (\<lambda>r'. Seq r' s) (deriv c r)). w \<in> lang x)"
    by (simp only: bex_map_Seq)
  also have "\<dots> \<longleftrightarrow> (\<exists>r' \<in> set (deriv c (Seq r s)). w \<in> lang r')"
    by (simp add: bex_Un) blast
  finally show ?case by simp
next
  case (Star r)
  have "c # w \<in> lang (Star r) \<longleftrightarrow>
        (\<exists>u v. c # u \<in> lang r \<and> v \<in> star (lang r) \<and> w = u @ v)"
    by (simp add: star_cons)
  also have "\<dots> \<longleftrightarrow>
        (\<exists>u v. (\<exists>r' \<in> set (deriv c r). u \<in> lang r') \<and> v \<in> lang (Star r) \<and> w = u @ v)"
    using Star by simp
  also have "\<dots> \<longleftrightarrow> (\<exists>x \<in> set (map (\<lambda>r'. Seq r' (Star r)) (deriv c r)). w \<in> lang x)"
    by (simp only: bex_map_Seq)
  finally show ?case by simp
qed auto

lemma derivs_lang:
  "(\<exists>r' \<in> set (derivs s rs). w \<in> lang r') \<longleftrightarrow> (\<exists>r \<in> set rs. s @ w \<in> lang r)"
proof (induction s arbitrary: rs)
  case Nil
  then show ?case by simp
next
  case (Cons c cs)
  have "(\<exists>r' \<in> set (derivs (c # cs) rs). w \<in> lang r')
        \<longleftrightarrow> (\<exists>r \<in> set (concat (map (deriv c) rs)). cs @ w \<in> lang r)"
    using Cons by simp
  also have "\<dots> \<longleftrightarrow> (\<exists>r \<in> set rs. \<exists>r' \<in> set (deriv c r). cs @ w \<in> lang r')"
    by auto
  also have "\<dots> \<longleftrightarrow> (\<exists>r \<in> set rs. (c # cs) @ w \<in> lang r)"
    by (simp add: deriv_lang)
  finally show ?case .
qed

lemma MatchString_lang: "MatchString r s \<longleftrightarrow> s \<in> lang r"
  using derivs_lang [of s "[r]" "[]"]
  by (simp add: MatchString_def list_ex_iff nullable_lang)

lemma star_class: "s \<in> star (lang (Cls k)) \<longleftrightarrow> list_all (\<lambda>c. in_class c k) s"
proof
  assume "s \<in> star (lang (Cls k))"
  then show "list_all (\<lambda>c. in_class c k) s"
    by (induction rule: star.induct) auto
next
  assume "list_all (\<lambda>c. in_class c k) s"
  then show "s \<in> star (lang (Cls k))"
  proof (induction s)
    case Nil
    then show ?case by (simp add: star.star_nil)
  next
    case (Cons c cs)
    then have "[c] \<in> lang (Cls k)" "cs \<in> star (lang (Cls k))" by auto
    then have "[c] @ cs \<in> star (lang (Cls k))" by (rule star.star_step)
    then show ?case by simp
  qed
qed

lemma class_agreement:
  "\<forall>c. in_class c lower_alnum = lowercase_alphanumeric c"
  by code_simp

lemma in_class_lower_alnum: "in_class c lower_alnum \<longleftrightarrow> lowercase_alphanumeric c"
  using class_agreement by blast

lemma hyphen_class_agreement:
  "\<forall>c. in_class c hyphen_lower_alnum = (lowercase_alphanumeric c \<or> c = CHR ''-'')"
  by code_simp

lemma in_class_hyphen_lower_alnum:
  "in_class c hyphen_lower_alnum \<longleftrightarrow> lowercase_alphanumeric c \<or> c = CHR ''-''"
  using hyphen_class_agreement by blast

section \<open>The validators and the DNS-1123 label rule\<close>

lemma lang_Seq_iff: "w \<in> lang (Seq r s) \<longleftrightarrow> (\<exists>u v. w = u @ v \<and> u \<in> lang r \<and> v \<in> lang s)"
  by auto

lemma lang_Cls_iff: "w \<in> lang (Cls k) \<longleftrightarrow> (\<exists>c. w = [c] \<and> in_class c k)"
  by auto

lemma lang_Opt_iff: "w \<in> lang (Opt r) \<longleftrightarrow> w = [] \<or> w \<in> lang r"
  by auto

lemma lang_Star_Cls_iff: "w \<in> lang (Star (Cls k)) \<longleftrightarrow> list_all (\<lambda>c. in_class c k) w"
  using star_class [of w k] by simp

lemma label_tail_lang:
  "v \<in> lang (Seq (Star (Cls hyphen_lower_alnum)) (Cls lower_alnum)) \<longleftrightarrow>
     (\<exists>m z. v = m @ [z] \<and> list_all (\<lambda>c. in_class c hyphen_lower_alnum) m \<and> in_class z lower_alnum)"
  unfolding lang_Seq_iff lang_Cls_iff lang_Star_Cls_iff by blast

lemma ex_single_append:
  "(\<exists>u v. s = u @ v \<and> (\<exists>c. u = [c] \<and> P c) \<and> Q v) \<longleftrightarrow> (\<exists>a v. s = a # v \<and> P a \<and> Q v)"
proof
  assume "\<exists>u v. s = u @ v \<and> (\<exists>c. u = [c] \<and> P c) \<and> Q v"
  then obtain c v where "s = [c] @ v" "P c" "Q v" by blast
  then have "s = c # v \<and> P c \<and> Q v" by simp
  then show "\<exists>a v. s = a # v \<and> P a \<and> Q v" by blast
next
  assume "\<exists>a v. s = a # v \<and> P a \<and> Q v"
  then obtain a v where "s = a # v" "P a" "Q v" by blast
  then have "s = [a] @ v \<and> (\<exists>c. [a] = [c] \<and> P c) \<and> Q v" by simp
  then show "\<exists>u v. s = u @ v \<and> (\<exists>c. u = [c] \<and> P c) \<and> Q v" by blast
qed

lemma label_lang:
  "s \<in> lang dnsLabelRegex \<longleftrightarrow>
     (\<exists>a v. s = a # v \<and> in_class a lower_alnum \<and>
        (v = [] \<or> (\<exists>m z. v = m @ [z] \<and> list_all (\<lambda>c. in_class c hyphen_lower_alnum) m
                          \<and> in_class z lower_alnum)))"
proof -
  have "s \<in> lang dnsLabelRegex \<longleftrightarrow>
        (\<exists>u v. s = u @ v \<and> (\<exists>c. u = [c] \<and> in_class c lower_alnum) \<and>
           (v = [] \<or> v \<in> lang (Seq (Star (Cls hyphen_lower_alnum)) (Cls lower_alnum))))"
    unfolding dnsLabelRegex_def lang_Seq_iff [of s] lang_Opt_iff lang_Cls_iff [of _ lower_alnum]
    by (rule refl)
  also have "\<dots> \<longleftrightarrow> (\<exists>a v. s = a # v \<and> in_class a lower_alnum \<and>
           (v = [] \<or> v \<in> lang (Seq (Star (Cls hyphen_lower_alnum)) (Cls lower_alnum))))"
    by (rule ex_single_append)
  finally show ?thesis by (simp only: label_tail_lang)
qed

lemma lower_alnum_subclass: "in_class c lower_alnum \<Longrightarrow> in_class c hyphen_lower_alnum"
  by (simp add: in_class_lower_alnum in_class_hyphen_lower_alnum)

lemma dnsLabelRegex_lang:
  "s \<in> lang dnsLabelRegex \<longleftrightarrow>
     s \<noteq> [] \<and> list_all (\<lambda>c. in_class c hyphen_lower_alnum) s \<and>
     in_class (hd s) lower_alnum \<and> in_class (last s) lower_alnum"
  (is "?L \<longleftrightarrow> ?R")
proof
  assume ?L
  then obtain a v where s: "s = a # v" and a: "in_class a lower_alnum"
    and v: "v = [] \<or> (\<exists>m z. v = m @ [z] \<and> list_all (\<lambda>c. in_class c hyphen_lower_alnum) m
                          \<and> in_class z lower_alnum)"
    unfolding label_lang by blast
  from v show ?R
  proof
    assume "v = []"
    with a s lower_alnum_subclass [OF a] show ?R by simp
  next
    assume "\<exists>m z. v = m @ [z] \<and> list_all (\<lambda>c. in_class c hyphen_lower_alnum) m
                          \<and> in_class z lower_alnum"
    then obtain m z where vm: "v = m @ [z]"
      and m: "list_all (\<lambda>c. in_class c hyphen_lower_alnum) m"
      and z: "in_class z lower_alnum"
      by blast
    with a s lower_alnum_subclass [OF a] lower_alnum_subclass [OF z] show ?R by simp
  qed
next
  assume r: ?R
  then obtain a v where s: "s = a # v" by (cases s) auto
  with r have a: "in_class a lower_alnum" by simp
  show ?L
  proof (cases "v = []")
    case True
    with s a show ?thesis unfolding label_lang by blast
  next
    case False
    then have vm: "v = butlast v @ [last v]" by simp
    from r s False have z: "in_class (last v) lower_alnum" by simp
    from r s have "list_all (\<lambda>c. in_class c hyphen_lower_alnum) v" by simp
    then have "list_all (\<lambda>c. in_class c hyphen_lower_alnum) (butlast v)"
      by (auto simp: list_all_iff dest: in_set_butlastD)
    with vm z s a show ?thesis unfolding label_lang by blast
  qed
qed

lemma hyphen_not_alphanumeric: "\<not> lowercase_alphanumeric CHR ''-''"
  by (simp add: lowercase_alphanumeric_def)

lemma MatchString_dnsLabelRegex:
  "length s \<le> 253 \<Longrightarrow> MatchString dnsLabelRegex s \<longleftrightarrow> dns1123_label s"
proof -
  assume len: "length s \<le> 253"
  show ?thesis
  proof (cases "s = []")
    case True
    then show ?thesis by (simp add: MatchString_lang dnsLabelRegex_lang dns1123_label_def)
  next
    case False
    then have "hd s \<in> set s" "last s \<in> set s" by simp_all
    then have ends: "list_all (\<lambda>c. lowercase_alphanumeric c \<or> c = CHR ''-'') s \<Longrightarrow>
        (lowercase_alphanumeric (hd s) \<longleftrightarrow> hd s \<noteq> CHR ''-'') \<and>
        (lowercase_alphanumeric (last s) \<longleftrightarrow> last s \<noteq> CHR ''-'')"
      using hyphen_not_alphanumeric by (auto simp: list_all_iff)
    show ?thesis
      using len False ends
      by (auto simp: MatchString_lang dnsLabelRegex_lang dns1123_label_def
          in_class_lower_alnum in_class_hyphen_lower_alnum)
  qed
qed

lemma validateNamespace_iff: "validateNamespace s = None \<longleftrightarrow> dns1123_label s"
proof (cases "length s \<le> 253")
  case True
  then show ?thesis
    using MatchString_dnsLabelRegex [OF True]
    by (auto simp: validateNamespace_def dns1123_label_def)
next
  case False
  then show ?thesis by (auto simp: validateNamespace_def dns1123_label_def)
qed

lemma validatePodName_iff: "validatePodName s = None \<longleftrightarrow> dns1123_label s"
proof (cases "length s \<le> 253")
  case True
  then show ?thesis
    using MatchString_dnsLabelRegex [OF True]
    by (auto simp: validatePodName_def dns1123_label_def)
next
  case False
  then show ?thesis by (auto simp: validatePodName_def dns1123_label_def)
qed

lemma validateNamespace_messages:
  "validateNamespace s = Some e \<Longrightarrow> e = ''namespace is required'' \<or> e = ''invalid namespace name''"
  by (auto simp: validateNamespace_def split: if_splits)

lemma validatePodName_messages:
  "validatePodName s = Some e \<Longrightarrow> e = ''pod name is required'' \<or> e = ''invalid pod name''"
  by (auto simp: validatePodName_def split: if_splits)

section \<open>Rejected inputs\<close>

lemma invalidResult_fields:
  "ExitCode (invalidResult args e) = - 1" "Stdout (invalidResult args e) = []"
  "Stderr (invalidResult args e) = e" "ParsedData (invalidResult args e) = None"
  by (simp_all add: invalidResult_def)

lemma name_error_messages:
  assumes "\<not> dns1123_label n \<or> \<not> dns1123_label p"
  shows "name_error n p \<in> set [''namespace is required'', ''invalid namespace name'',
                                 ''pod name is required'', ''invalid pod name'']"
proof (cases "validateNamespace n")
  case (Some e)
  then show ?thesis
    using validateNamespace_messages [OF Some] by (auto simp: name_error_def)
next
  case None
  then have "dns1123_label n" by (simp add: validateNamespace_iff)
  with assms have "validatePodName p \<noteq> None" by (simp add: validatePodName_iff)
  then obtain e where e: "validatePodName p = Some e" by blast
  with None show ?thesis
    using validatePodName_messages [OF e] by (auto simp: name_error_def)
qed

lemma invalid_name_cases:
  assumes "\<not> dns1123_label n \<or> \<not> dns1123_label p"
  shows "(validateNamespace n = Some (name_error n p)) \<or>
         (validateNamespace n = None \<and> validatePodName p = Some (name_error n p))"
proof (cases "validateNamespace n")
  case (Some e)
  then show ?thesis by (simp add: name_error_def)
next
  case None
  then have "dns1123_label n" by (simp add: validateNamespace_iff)
  with assms have "validatePodName p \<noteq> None" by (simp add: validatePodName_iff)
  with None show ?thesis by (auto simp: name_error_def)
qed

lemma DeletePod_rejects:
  assumes "\<not> dns1123_label n \<or> \<not> dns1123_label p"
  shows "DeletePod w c n p a =
           (invalidResult [''delete'', ''pod'', p, ''-n'', n] (name_error n p), a)"
  using invalid_name_cases [OF assms] by (auto simp: DeletePod_def)

lemma GetPodLogs_rejects:
  assumes "\<not> dns1123_label n \<or> \<not> dns1123_label p"
  shows "GetPodLogs w c n p t a = (invalidResult [''logs'', p, ''-n'', n] (name_error n p), a)"
  using invalid_name_cases [OF assms] by (auto simp: GetPodLogs_def)

lemma DescribePod_rejects:
  assumes "\<not> dns1123_label n \<or> \<not> dns1123_label p"
  shows "DescribePod w c n p a =
           (invalidResult [''describe'', ''pod'', p, ''-n'', n] (name_error n p), a)"
  using invalid_name_cases [OF assms] by (auto simp: DescribePod_def)

text \<open>
  C2. When the namespace or the pod name is not a DNS-1123 label, \<open>DeletePod\<close>,
  \<open>GetPodLogs\<close> and \<open>DescribePod\<close> return an envelope with exit code -1, empty stdout
  and the validation message as stderr (one of the four messages of the validators),
  and no process has been started: the log of spawned processes is as it was.
\<close>

theorem invalid_names_rejected:
  assumes "\<not> dns1123_label n \<or> \<not> dns1123_label p"
  shows "name_error n p \<in> set [''namespace is required'', ''invalid namespace name'',
                                 ''pod name is required'', ''invalid pod name''] \<and>
         ExitCode (fst (DeletePod w c n p a)) = - 1 \<and>
         Stdout (fst (DeletePod w c n p a)) = [] \<and>
         Stderr (fst (DeletePod w c n p a)) = name_error n p \<and>
         spawned (snd (DeletePod w c n p a)) = spawned a \<and>
         ExitCode (fst (GetPodLogs w c n p t a)) = - 1 \<and>
         Stdout (fst (GetPodLogs w c n p t a)) = [] \<and>
         Stderr (fst (GetPodLogs w c n p t a)) = name_error n p \<and>
         spawned (snd (GetPodLogs w c n p t a)) = spawned a \<and>
         ExitCode (fst (DescribePod w c n p a)) = - 1 \<and>
         Stdout (fst (DescribePod w c n p a)) = [] \<and>
         Stderr (fst (DescribePod w c n p a)) = name_error n p \<and>
         spawned (snd (DescribePod w c n p a)) = spawned a"
  using name_error_messages [OF assms]
  by (simp only: DeletePod_rejects [OF assms] GetPodLogs_rejects [OF assms]
      DescribePod_rejects [OF assms] fst_conv snd_conv invalidResult_fields simp_thms)

lemma bad_namespace_not_label: "\<not> dns1123_label ''Bad_NS''"
  by (simp add: dns1123_label_def lowercase_alphanumeric_def)

lemma name_error_bad_namespace: "name_error ''Bad_NS'' ''web-0'' = ''invalid namespace name''"
  by code_simp

theorem invalid_names_rejected_witness:
  "\<not> dns1123_label ''Bad_NS'' \<and>
   ExitCode (fst (DeletePod (sample_env []) ''prod'' ''Bad_NS'' ''web-0'' NewApp)) = - 1 \<and>
   Stdout (fst (DeletePod (sample_env []) ''prod'' ''Bad_NS'' ''web-0'' NewApp)) = [] \<and>
   Stderr (fst (DeletePod (sample_env []) ''prod'' ''Bad_NS'' ''web-0'' NewApp))
     = ''invalid namespace name'' \<and>
   spawned (snd (DeletePod (sample_env []) ''prod'' ''Bad_NS'' ''web-0'' NewApp)) = [] \<and>
   Stderr (fst (GetPodLogs (sample_env []) ''prod'' ''Bad_NS'' ''web-0'' 10 NewApp))
     = ''invalid namespace name'' \<and>
   spawned (snd (GetPodLogs (sample_env []) ''prod'' ''Bad_NS'' ''web-0'' 10 NewApp)) = [] \<and>
   Stderr (fst (DescribePod (sample_env []) ''prod'' ''Bad_NS'' ''web-0'' NewApp))
     = ''invalid namespace name'' \<and>
   spawned (snd (DescribePod (sample_env []) ''prod'' ''Bad_NS'' ''web-0'' NewApp)) = []"
proof -
  have h: "\<not> dns1123_label ''Bad_NS'' \<or> \<not> dns1123_label ''web-0''"
    using bad_namespace_not_label by simp
  have e: "spawned NewApp = []" by (simp add: NewApp_def)
  from invalid_names_rejected [OF h, of "sample_env []" "''prod''" NewApp 10]
  show ?thesis
    by (simp only: name_error_bad_namespace e bad_namespace_not_label simp_thms)
qed

section \<open>What is recorded in the transcript\<close>

lemma recorded_after:
  "snd res = record_cr (fst res) a1 \<Longrightarrow> transcript a1 = transcript a \<Longrightarrow> recorded res a"
  by (simp add: recorded_def transcript_record_cr)

lemma transcript_Run: "transcript (snd (Run w args timeout a)) = transcript a"
  by (simp add: Run_snd)

lemma recorded_ListContexts: "recorded (ListContexts w a) a"
  by (rule recorded_after [OF ListContexts_state transcript_Run])

lemma recorded_GetCurrentContext: "recorded (GetCurrentContext w a) a"
  by (rule recorded_after [OF GetCurrentContext_state transcript_Run])

lemma recorded_SetContext:
  "validateContextName name = None \<Longrightarrow> recorded (SetContext w name a) a"
  by (rule recorded_after [OF _ transcript_Run]) (simp add: SetContext_valid)

lemma recorded_ListNamespaces:
  "validateContextName c = None \<Longrightarrow> recorded (ListNamespaces w c a) a"
  by (rule recorded_after [OF ListNamespaces_state transcript_Run])

lemma recorded_ListPods:
  "validateNamespace n = None \<Longrightarrow> validateContextName c = None \<Longrightarrow>
   recorded (ListPods w c n a) a"
  by (rule recorded_after [OF ListPods_state transcript_Run])

lemma recorded_DeletePod:
  "validateNamespace n = None \<Longrightarrow> validatePodName p = None \<Longrightarrow>
   validateContextName c = None \<Longrightarrow> recorded (DeletePod w c n p a) a"
  by (rule recorded_after [OF _ transcript_Run]) (simp add: DeletePod_valid)

lemma recorded_GetPodLogs:
  "validateNamespace n = None \<Longrightarrow> validatePodName p = None \<Longrightarrow>
   validateContextName c = None \<Longrightarrow> recorded (GetPodLogs w c n p t a) a"
  by (rule recorded_after [OF _ transcript_Run]) (simp add: GetPodLogs_valid)

lemma recorded_DescribePod:
  "validateNamespace n = None \<Longrightarrow> validatePodName p = None \<Longrightarrow>
   validateContextName c = None \<Longrightarrow> recorded (DescribePod w c n p a) a"
  by (rule recorded_after [OF _ transcript_Run]) (simp add: DescribePod_valid)

lemma SetContext_rejected:
  "validateContextName name \<noteq> None \<Longrightarrow> refused (SetContext w name a) a"
  by (auto simp: SetContext_def refused_def invalidResult_fields)

lemma ListNamespaces_rejected:
  "validateContextName c \<noteq> None \<Longrightarrow> refused (ListNamespaces w c a) a"
  by (auto simp: ListNamespaces_def withContext_def refused_def invalidResult_fields)

lemma ListPods_rejected:
  "\<not> (validateNamespace n = None \<and> validateContextName c = None) \<Longrightarrow>
   refused (ListPods w c n a) a"
  by (auto simp: ListPods_def withContext_def refused_def invalidResult_fields
      split: option.splits)

lemma DeletePod_rejected:
  "\<not> (validateNamespace n = None \<and> validatePodName p = None \<and> validateContextName c = None) \<Longrightarrow>
   refused (DeletePod w c n p a) a"
  by (auto simp: DeletePod_def withContext_def refused_def invalidResult_fields
      split: option.splits)

lemma GetPodLogs_rejected:
  "\<not> (validateNamespace n = None \<and> validatePodName p = None \<and> validateContextName c = None) \<Longrightarrow>
   refused (GetPodLogs w c n p t a) a"
  by (auto simp: GetPodLogs_def withContext_def refused_def invalidResult_fields
      split: option.splits)

lemma DescribePod_rejected:
  "\<not> (validateNamespace n = None \<and> validatePodName p = None \<and> validateContextName c = None) \<Longrightarrow>
   refused (DescribePod w c n p a) a"
  by (auto simp: DescribePod_def withContext_def refused_def invalidResult_fields
      split: option.splits)

text \<open>
  C1, as the code has it. \<open>ListContexts\<close> and \<open>GetCurrentContext\<close> always append the
  envelope they return: the transcript afterwards is the old transcript with the
  envelope added at the end, cut from the front to its last 200 entries. The six
  operations that validate their inputs do the same exactly when validation passes,
  whatever the process then does; when validation fails they return an envelope with
  exit code -1 and leave the application state, and so the transcript, as it was.
\<close>

theorem recorded_unless_rejected:
  "recorded (ListContexts w a) a \<and>
   recorded (GetCurrentContext w a) a \<and>
   (if validateContextName name = None
    then recorded (SetContext w name a) a
    else refused (SetContext w name a) a) \<and>
   (if validateContextName c = None
    then recorded (ListNamespaces w c a) a
    else refused (ListNamespaces w c a) a) \<and>
   (if validateNamespace n = None \<and> validateContextName c = None
    then recorded (ListPods w c n a) a
    else refused (ListPods w c n a) a) \<and>
   (if validateNamespace n = None \<and> validatePodName p = None \<and> validateContextName c = None
    then recorded (DeletePod w c n p a) a \<and> recorded (GetPodLogs w c n p t a) a \<and>
         recorded (DescribePod w c n p a) a
    else refused (DeletePod w c n p a) a \<and> refused (GetPodLogs w c n p t a) a \<and>
         refused (DescribePod w c n p a) a)"
proof -
  have s: "if validateContextName name = None
    then recorded (SetContext w name a) a
    else refused (SetContext w name a) a"
    by (simp add: recorded_SetContext SetContext_rejected)
  have l: "if validateContextName c = None
    then recorded (ListNamespaces w c a) a
    else refused (ListNamespaces w c a) a"
    by (simp add: recorded_ListNamespaces ListNamespaces_rejected)
  have p: "if validateNamespace n = None \<and> validateContextName c = None
    then recorded (ListPods w c n a) a
    else refused (ListPods w c n a) a"
    using recorded_ListPods [of n c w a] ListPods_rejected [of n c w a] by auto
  have d: "if validateNamespace n = None \<and> validatePodName p = None \<and> validateContextName c = None
    then recorded (DeletePod w c n p a) a \<and> recorded (GetPodLogs w c n p t a) a \<and>
         recorded (DescribePod w c n p a) a
    else refused (DeletePod w c n p a) a \<and> refused (GetPodLogs w c n p t a) a \<and>
         refused (DescribePod w c n p a) a"
    using recorded_DeletePod [of n p c w a] recorded_GetPodLogs [of n p c w t a]
      recorded_DescribePod [of n p c w a] DeletePod_rejected [of n p c w a]
      GetPodLogs_rejected [of n p c w t a] DescribePod_rejected [of n p c w a]
    by auto
  from recorded_ListContexts [of w a] recorded_GetCurrentContext [of w a] s l p d
  show ?thesis by blast
qed

theorem recorded_unless_rejected_witness:
  "validateNamespace ''default'' = None \<and> validatePodName ''web-0'' = None \<and>
   validateContextName [] = None \<and> validateNamespace ''Bad_NS'' \<noteq> None \<and>
   transcript (snd (ListContexts (sample_env []) NewApp))
     = [fst (ListContexts (sample_env []) NewApp)] \<and>
   transcript (snd (DeletePod (sample_env []) [] ''default'' ''web-0'' NewApp))
     = [fst (DeletePod (sample_env []) [] ''default'' ''web-0'' NewApp)] \<and>
   ExitCode (fst (DeletePod (sample_env []) [] ''Bad_NS'' ''web-0'' NewApp)) = - 1 \<and>
   transcript (snd (DeletePod (sample_env []) [] ''Bad_NS'' ''web-0'' NewApp)) = []"
proof -
  have bad: "validateNamespace ''Bad_NS'' \<noteq> None"
    using bad_namespace_not_label by (simp add: validateNamespace_iff)
  note good = recorded_unless_rejected
    [of "sample_env []" NewApp "[]" "[]" "''default''" "''web-0''" 10]
  note rej = recorded_unless_rejected
    [of "sample_env []" NewApp "[]" "[]" "''Bad_NS''" "''web-0''" 10]
  from good have one: "transcript (snd (ListContexts (sample_env []) NewApp))
     = [fst (ListContexts (sample_env []) NewApp)]"
    by (simp add: recorded_def NewApp_def)
  from good have two: "transcript (snd (DeletePod (sample_env []) [] ''default'' ''web-0'' NewApp))
     = [fst (DeletePod (sample_env []) [] ''default'' ''web-0'' NewApp)]"
    by (simp add: validateNamespace_default validatePodName_web validateContextName_empty
        recorded_def NewApp_def)
  from rej bad have three:
    "ExitCode (fst (DeletePod (sample_env []) [] ''Bad_NS'' ''web-0'' NewApp)) = - 1"
    "transcript (snd (DeletePod (sample_env []) [] ''Bad_NS'' ''web-0'' NewApp)) = []"
    by (simp_all add: refused_def NewApp_def)
  from one two three bad show ?thesis
    by (simp only: validateNamespace_default validatePodName_web validateContextName_empty
        simp_thms)
qed

text \<open>
  The claim C1 as stated fails: \<open>DeletePod\<close> with an empty namespace returns an envelope
  with exit code -1 that is not in the transcript afterwards.
\<close>

theorem rejected_call_not_recorded:
  "ExitCode (fst (DeletePod (sample_env []) [] [] ''web-0'' NewApp)) = - 1 \<and>
   transcript (snd (DeletePod (sample_env []) [] [] ''web-0'' NewApp)) = [] \<and>
   fst (DeletePod (sample_env []) [] [] ''web-0'' NewApp)
     \<notin> set (transcript (snd (DeletePod (sample_env []) [] [] ''web-0'' NewApp))) \<and>
   \<not> recorded (DeletePod (sample_env []) [] [] ''web-0'' NewApp) NewApp"
  by (simp add: DeletePod_def validateNamespace_def invalidResult_def NewApp_def
      recorded_def)

section \<open>Decoding the output of list operations\<close>

lemma appendParseError_fields:
  "ExitCode (appendParseError r e) = ExitCode r"
  "Stdout (appendParseError r e) = Stdout r"
  "ParsedData (appendParseError r e) = ParsedData r"
  "Command (appendParseError r e) = Command r"
  "DurationMs (appendParseError r e) = DurationMs r"
  "Stderr (appendParseError r e)
     = (if Stderr r = [] then [] else Stderr r @ [CHR 0x0A]) @ ''parse error: '' @ e"
  by (simp_all add: appendParseError_def Let_def)

lemma Run_ParsedData: "ParsedData (fst (Run w args timeout a)) = None"
  by (simp add: Run_fst)

lemma decode_failure_appendParseError:
  "ExitCode (fst (Run w args timeout a)) = 0 \<Longrightarrow>
   decode_failure_envelope (fst (Run w args timeout a)) e
     (appendParseError (fst (Run w args timeout a)) e)"
  by (simp add: decode_failure_envelope_def appendParseError_fields Run_ParsedData)

lemma parseContexts_error:
  "Unmarshal_kubeConfigView w s = Inl e \<Longrightarrow> parseContexts w s = Inl e"
  by (simp add: parseContexts_def)

lemma parseNamespaces_error:
  "Unmarshal_namespaceList w s = Inl e \<Longrightarrow> parseNamespaces w s = Inl e"
  by (simp add: parseNamespaces_def)

lemma parsePods_error:
  "Unmarshal_podList w s = Inl e \<Longrightarrow> parsePods w s = Inl e"
  by (simp add: parsePods_def)

lemma ListContexts_result:
  "fst (ListContexts w a) =
     (let result = fst (Run w [''config'', ''view'', ''-o'', ''json''] defaultTimeout a)
      in if ExitCode result = 0
         then (case parseContexts w (Stdout result) of
                 Inl err \<Rightarrow> appendParseError result err
               | Inr parsed \<Rightarrow> result\<lparr>ParsedData := Some (PContexts parsed)\<rparr>)
         else result)"
  by (simp add: ListContexts_def runKubectl_def Let_def case_prod_beta)

lemma ListNamespaces_result:
  "validateContextName c = None \<Longrightarrow>
   fst (ListNamespaces w c a) =
     (let result = fst (Run w (with_context_prefix c [''get'', ''ns'', ''-o'', ''json''])
                          defaultTimeout a)
      in if ExitCode result = 0
         then (case parseNamespaces w (Stdout result) of
                 Inl err \<Rightarrow> appendParseError result err
               | Inr parsed \<Rightarrow> result\<lparr>ParsedData := Some (PNamespaces parsed)\<rparr>)
         else result)"
  by (simp add: ListNamespaces_def withContext_valid runKubectl_def Let_def case_prod_beta)

lemma ListPods_result:
  "validateNamespace n = None \<Longrightarrow> validateContextName c = None \<Longrightarrow>
   fst (ListPods w c n a) =
     (let result = fst (Run w (with_context_prefix c [''get'', ''pods'', ''-n'', n, ''-o'', ''json''])
                          defaultTimeout a)
      in if ExitCode result = 0
         then (case parsePods w (Stdout result) of
                 Inl err \<Rightarrow> appendParseError result err
               | Inr parsed \<Rightarrow> result\<lparr>ParsedData := Some (PPods parsed)\<rparr>)
         else result)"
  by (simp add: ListPods_def withContext_valid runKubectl_def Let_def case_prod_beta)

text \<open>
  C7. For each list operation on valid inputs: when the process result has exit code 0
  and \<open>json.Unmarshal\<close> fails on its stdout with the error \<open>detail\<close>, the returned
  envelope keeps exit code 0 and the stdout, has the line \<open>parse error: detail\<close>
  appended to stderr, and has no parsed data.
\<close>

theorem decode_failure_keeps_success:
  "(ExitCode (fst (Run w [''config'', ''view'', ''-o'', ''json''] defaultTimeout a)) = 0 \<and>
    Unmarshal_kubeConfigView w
      (Stdout (fst (Run w [''config'', ''view'', ''-o'', ''json''] defaultTimeout a))) = Inl detail
    \<longrightarrow> decode_failure_envelope
          (fst (Run w [''config'', ''view'', ''-o'', ''json''] defaultTimeout a)) detail
          (fst (ListContexts w a))) \<and>
   (validateContextName c = None \<and>
    ExitCode (fst (Run w (with_context_prefix c [''get'', ''ns'', ''-o'', ''json''])
                     defaultTimeout a)) = 0 \<and>
    Unmarshal_namespaceList w
      (Stdout (fst (Run w (with_context_prefix c [''get'', ''ns'', ''-o'', ''json''])
                      defaultTimeout a))) = Inl detail
    \<longrightarrow> decode_failure_envelope
          (fst (Run w (with_context_prefix c [''get'', ''ns'', ''-o'', ''json'']) defaultTimeout a))
          detail (fst (ListNamespaces w c a))) \<and>
   (validateNamespace n = None \<and> validateContextName c = None \<and>
    ExitCode (fst (Run w (with_context_prefix c [''get'', ''pods'', ''-n'', n, ''-o'', ''json''])
                     defaultTimeout a)) = 0 \<and>
    Unmarshal_podList w
      (Stdout (fst (Run w (with_context_prefix c [''get'', ''pods'', ''-n'', n, ''-o'', ''json''])
                      defaultTimeout a))) = Inl detail
    \<longrightarrow> decode_failure_envelope
          (fst (Run w (with_context_prefix c [''get'', ''pods'', ''-n'', n, ''-o'', ''json''])
                  defaultTimeout a))
          detail (fst (ListPods w c n a)))"
proof -
  have a1: "ExitCode (fst (Run w [''config'', ''view'', ''-o'', ''json''] defaultTimeout a)) = 0 \<and>
    Unmarshal_kubeConfigView w
      (Stdout (fst (Run w [''config'', ''view'', ''-o'', ''json''] defaultTimeout a))) = Inl detail
    \<longrightarrow> decode_failure_envelope
          (fst (Run w [''config'', ''view'', ''-o'', ''json''] defaultTimeout a)) detail
          (fst (ListContexts w a))"
    by (simp add: ListContexts_result parseContexts_error decode_failure_appendParseError)
  have a2: "validateContextName c = None \<and>
    ExitCode (fst (Run w (with_context_prefix c [''get'', ''ns'', ''-o'', ''json''])
                     defaultTimeout a)) = 0 \<and>
    Unmarshal_namespaceList w
      (Stdout (fst (Run w (with_context_prefix c [''get'', ''ns'', ''-o'', ''json''])
                      defaultTimeout a))) = Inl detail
    \<longrightarrow> decode_failure_envelope
          (fst (Run w (with_context_prefix c [''get'', ''ns'', ''-o'', ''json'']) defaultTimeout a))
          detail (fst (ListNamespaces w c a))"
    by (simp add: ListNamespaces_result parseNamespaces_error decode_failure_appendParseError)
  have a3: "validateNamespace n = None \<and> validateContextName c = None \<and>
    ExitCode (fst (Run w (with_context_prefix c [''get'', ''pods'', ''-n'', n, ''-o'', ''json''])
                     defaultTimeout a)) = 0 \<and>
    Unmarshal_podList w
      (Stdout (fst (Run w (with_context_prefix c [''get'', ''pods'', ''-n'', n, ''-o'', ''json''])
                      defaultTimeout a))) = Inl detail
    \<longrightarrow> decode_failure_envelope
          (fst (Run w (with_context_prefix c [''get'', ''pods'', ''-n'', n, ''-o'', ''json''])
                  defaultTimeout a))
          detail (fst (ListPods w c n a))"
    by (simp add: ListPods_result parsePods_error decode_failure_appendParseError)
  from a1 a2 a3 show ?thesis by blast
qed

lemma sample_run:
  "fst (Run (sample_env out) args timeout a) =
     \<lparr>Command = ''kubectl '' @ Join args '' '', Stdout = out, Stderr = [], ExitCode = 0,
      DurationMs = 42, ParsedData = None\<rparr>"
  by (simp add: Run_fst sample_env_def sample_outcome_def quot_def)

lemma sample_unmarshal_truncated:
  "Unmarshal_kubeConfigView (sample_env out) ''{'' = Inl ''unexpected end of JSON input''"
  "Unmarshal_namespaceList (sample_env out) ''{'' = Inl ''unexpected end of JSON input''"
  "Unmarshal_podList (sample_env out) ''{'' = Inl ''unexpected end of JSON input''"
  by (simp_all add: sample_env_def sample_unmarshal_def)

theorem decode_failure_keeps_success_witness:
  "ExitCode (fst (ListContexts (sample_env ''{'') NewApp)) = 0 \<and>
   Stdout (fst (ListContexts (sample_env ''{'') NewApp)) = ''{'' \<and>
   Stderr (fst (ListContexts (sample_env ''{'') NewApp))
     = ''parse error: unexpected end of JSON input'' \<and>
   ParsedData (fst (ListContexts (sample_env ''{'') NewApp)) = None \<and>
   validateContextName ''prod'' = None \<and> validateNamespace ''default'' = None \<and>
   Stdout (fst (ListNamespaces (sample_env ''{'') ''prod'' NewApp)) = ''{'' \<and>
   Stderr (fst (ListNamespaces (sample_env ''{'') ''prod'' NewApp))
     = ''parse error: unexpected end of JSON input'' \<and>
   ExitCode (fst (ListPods (sample_env ''{'') ''prod'' ''default'' NewApp)) = 0 \<and>
   Stderr (fst (ListPods (sample_env ''{'') ''prod'' ''default'' NewApp))
     = ''parse error: unexpected end of JSON input'' \<and>
   ParsedData (fst (ListPods (sample_env ''{'') ''prod'' ''default'' NewApp)) = None"
  using decode_failure_keeps_success
    [of "sample_env ''{''" NewApp "''unexpected end of JSON input''" "''prod''" "''default''"]
  by (simp add: sample_run sample_unmarshal_truncated validateContextName_prod
      validateNamespace_default decode_failure_envelope_def)

section \<open>The pod decoder\<close>

lemma namespaces_loop_append:
  "namespaces_loop items acc
     = acc @ map (\<lambda>i. \<lparr>ns_Name = nsi_Name i\<rparr>) (filter (\<lambda>i. nsi_Name i \<noteq> []) items)"
  by (induction items arbitrary: acc) auto

lemma contexts_loop_append: "contexts_loop cs acc = acc @ filter (\<lambda>c. c \<noteq> []) cs"
  by (induction cs arbitrary: acc) auto

lemma pods_loop_append: "pods_loop t items acc = acc @ map (pod_of t) items"
  by (induction items arbitrary: acc) auto

lemma containers_loop_status:
  "snd (snd (containers_loop css (rc, rs, st)))
     = (if concat (map container_reasons css) \<noteq> []
        then last (concat (map container_reasons css)) else st)"
proof (induction css arbitrary: rc rs st)
  case Nil
  then show ?case by simp
next
  case (Cons cs css)
  show ?case
    by (simp add: Cons Let_def container_reasons_def split: option.splits)
qed

lemma Status_pod_of: "Status (pod_of t item) = spec_status item"
proof -
  obtain rc rs st where l: "containers_loop (pi_ContainerStatuses item)
      (0, 0, if pi_Reason item \<noteq> [] then pi_Reason item else pi_Phase item) = (rc, rs, st)"
    by (cases "containers_loop (pi_ContainerStatuses item)
      (0, 0, if pi_Reason item \<noteq> [] then pi_Reason item else pi_Phase item)") auto
  have "st = snd (snd (containers_loop (pi_ContainerStatuses item)
      (0, 0, if pi_Reason item \<noteq> [] then pi_Reason item else pi_Phase item)))"
    by (simp add: l)
  then have "st = spec_status item"
    by (simp only: containers_loop_status spec_status_def Let_def)
  with l show ?thesis by (simp add: pod_of_def Let_def)
qed

lemma parsePods_decoded:
  "Unmarshal_podList w stdout = Inr list \<Longrightarrow>
   parsePods w stdout = Inr (map (pod_of (now w)) (pl_Items list))"
  by (simp add: parsePods_def pods_loop_append)

lemma last_container_waiting:
  assumes "pi_ContainerStatuses item = css @ [cs]"
    and "cs_Waiting cs = Some r" and "r \<noteq> []"
    and "cs_Terminated cs = None \<or> cs_Terminated cs = Some []"
  shows "spec_status item = r"
  using assms by (auto simp: spec_status_def container_reasons_def Let_def)

text \<open>
  C3. Every pod the decoder returns has the status the precedence rule gives its item:
  the last non-empty \<open>waiting.reason\<close> or \<open>terminated.reason\<close> over the containers in
  listed order (within one container \<open>terminated\<close> after \<open>waiting\<close>), else
  \<open>status.reason\<close> if not empty, else \<open>status.phase\<close>. In particular, if the last
  container is waiting with a non-empty reason and has no terminated reason, that reason
  is the status, whatever the phase: \<open>Running\<close> with \<open>CrashLoopBackOff\<close> decodes to
  \<open>CrashLoopBackOff\<close>.
\<close>

theorem pod_status_precedence:
  "(Unmarshal_podList w stdout = Inr list \<longrightarrow>
      (\<exists>pods. parsePods w stdout = Inr pods \<and>
              map Status pods = map spec_status (pl_Items list))) \<and>
   Status (pod_of t item) = spec_status item \<and>
   (pi_Phase item = ''Running'' \<and> pi_ContainerStatuses item = css @ [cs] \<and>
    cs_Waiting cs = Some ''CrashLoopBackOff'' \<and>
    (cs_Terminated cs = None \<or> cs_Terminated cs = Some [])
    \<longrightarrow> Status (pod_of t item) = ''CrashLoopBackOff'')"
proof -
  have a: "Unmarshal_podList w stdout = Inr list \<longrightarrow>
      (\<exists>pods. parsePods w stdout = Inr pods \<and>
              map Status pods = map spec_status (pl_Items list))"
    by (simp add: parsePods_decoded Status_pod_of)
  have b: "pi_Phase item = ''Running'' \<and> pi_ContainerStatuses item = css @ [cs] \<and>
    cs_Waiting cs = Some ''CrashLoopBackOff'' \<and>
    (cs_Terminated cs = None \<or> cs_Terminated cs = Some [])
    \<longrightarrow> Status (pod_of t item) = ''CrashLoopBackOff''"
    using last_container_waiting [of item css cs "''CrashLoopBackOff''"]
    by (auto simp: Status_pod_of)
  from a b Status_pod_of [of t item] show ?thesis by blast
qed

lemma crashloop_decoded:
  "Unmarshal_podList crashloop_env crashloop_json = Inr \<lparr>pl_Items = [crashloop_item]\<rparr>"
  by (simp add: crashloop_env_def)

lemma crashloop_containers:
  "pi_Phase crashloop_item = ''Running''"
  "pi_ContainerStatuses crashloop_item
     = [\<lparr>cs_Ready = True, cs_RestartCount = 0, cs_Waiting = None, cs_Terminated = None\<rparr>] @
       [\<lparr>cs_Ready = False, cs_RestartCount = 7, cs_Waiting = Some ''CrashLoopBackOff'',
         cs_Terminated = None\<rparr>]"
  by (simp_all add: crashloop_item_def)

theorem pod_status_precedence_witness:
  "Unmarshal_podList crashloop_env crashloop_json = Inr \<lparr>pl_Items = [crashloop_item]\<rparr> \<and>
   pi_Phase crashloop_item = ''Running'' \<and>
   (\<exists>pods. parsePods crashloop_env crashloop_json = Inr pods \<and> map Status pods = [''CrashLoopBackOff'']) \<and>
   Status (pod_of 0 crashloop_item) = ''CrashLoopBackOff''"
proof -
  note r = pod_status_precedence [of crashloop_env crashloop_json "\<lparr>pl_Items = [crashloop_item]\<rparr>"
      0 crashloop_item
      "[\<lparr>cs_Ready = True, cs_RestartCount = 0, cs_Waiting = None, cs_Terminated = None\<rparr>]"
      "\<lparr>cs_Ready = False, cs_RestartCount = 7, cs_Waiting = Some ''CrashLoopBackOff'',
        cs_Terminated = None\<rparr>"]
  have s: "Status (pod_of 0 crashloop_item) = ''CrashLoopBackOff''"
    by (rule mp [OF conjunct2 [OF conjunct2 [OF r]]]) (simp add: crashloop_containers)
  have "spec_status crashloop_item = Status (pod_of 0 crashloop_item)"
    by (rule conjunct1 [OF conjunct2 [OF r], symmetric])
  with s have e: "spec_status crashloop_item = ''CrashLoopBackOff''" by simp
  from mp [OF conjunct1 [OF r] crashloop_decoded]
  obtain pods where "parsePods crashloop_env crashloop_json = Inr pods"
    and "map Status pods = map spec_status (pl_Items \<lparr>pl_Items = [crashloop_item]\<rparr>)"
    by blast
  with e have p: "\<exists>pods. parsePods crashloop_env crashloop_json = Inr pods \<and>
      map Status pods = [''CrashLoopBackOff'']"
    by simp
  from crashloop_decoded crashloop_containers(1) p s show ?thesis by blast
qed

lemma crashloop_pod:
  "parsePods crashloop_env crashloop_json =
     Inr [\<lparr>Name = ''web-0'', Status = ''CrashLoopBackOff'', Ready = ''1/2'', Restarts = 7,
           Age = ''-'', Node = ''node-1'', HasOwner = True\<rparr>]"
  by code_simp

section \<open>Rounding to \<open>float64\<close>\<close>

lemma pow2_powi: "pow2 e = 2 powi e"
  by (simp add: pow2_def power_int_def power_one_over inverse_eq_divide)

lemma pow2_pos: "0 < pow2 e"
  by (simp add: pow2_powi)

lemma pow2_add: "pow2 (a + b) = pow2 a * pow2 b"
  by (simp add: pow2_powi power_int_add)

lemma pow2_mono: "a \<le> b \<Longrightarrow> pow2 a \<le> pow2 b"
  by (simp add: pow2_powi power_int_increasing)

lemma pow2_cancel: "pow2 e * pow2 (- e) = 1"
  using pow2_add [of e "- e"] by (simp add: pow2_def)

lemma pow2_of_nat: "pow2 (int k) = 2 ^ k"
  by (simp add: pow2_def)

lemma pow2_diff_nat: "pow2 (int a - int b) = 2 ^ a / 2 ^ b"
  by (simp add: pow2_powi power_int_diff)

lemma bitlen_bounds:
  "0 < n \<Longrightarrow> \<exists>k. bitlen n = int k + 1 \<and> 2 ^ k \<le> n \<and> n < 2 ^ (k + 1)"
proof (induction n rule: bitlen.induct)
  case (1 n)
  show ?case
  proof (cases "n div 2 \<le> 0")
    case True
    with "1.prems" have n: "n = 1" by linarith
    have "bitlen 1 = 1" by (simp add: bitlen.simps)
    with n show ?thesis by (intro exI [of _ 0]) simp
  next
    case False
    then have pos: "0 < n div 2" by simp
    from "1.prems" have "\<not> n \<le> 0" by simp
    from "1.IH" [OF this pos] obtain k where k: "bitlen (n div 2) = int k + 1"
      "2 ^ k \<le> n div 2" "n div 2 < 2 ^ (k + 1)"
      by blast
    have b: "bitlen n = int (Suc k) + 1"
      using "1.prems" k(1) by (subst bitlen.simps) simp
    have lo: "(2::int) ^ Suc k \<le> n" using k(2) by simp
    have hi: "n < (2::int) ^ (Suc k + 1)" using k(3) by simp
    from b lo hi show ?thesis by blast
  qed
qed

lemma f64_exponent_bounds:
  assumes "0 < q"
  shows "pow2 (f64_exponent q) \<le> q \<and> q < pow2 (f64_exponent q + 1)"
proof -
  obtain a b where ab: "quotient_of q = (a, b)" by (cases "quotient_of q") auto
  then have b: "0 < b" using quotient_of_denom_pos by blast
  from ab have q: "q = of_int a / of_int b" by (rule quotient_of_div)
  with assms b have a: "0 < a" by (simp add: zero_less_divide_iff)
  from bitlen_bounds [OF a] obtain ka where ka: "bitlen a = int ka + 1" "2 ^ ka \<le> a" "a < 2 ^ (ka + 1)"
    by blast
  from bitlen_bounds [OF b] obtain kb where kb: "bitlen b = int kb + 1" "2 ^ kb \<le> b" "b < 2 ^ (kb + 1)"
    by blast
  define e0 where "e0 = int ka - int kb"
  have ra: "(2::rat) ^ ka \<le> of_int a" "(of_int a :: rat) < 2 ^ (ka + 1)"
    using ka(2,3) by (metis of_int_le_iff of_int_numeral of_int_power, metis of_int_less_iff of_int_numeral of_int_power)
  have rb: "(2::rat) ^ kb \<le> of_int b" "(of_int b :: rat) < 2 ^ (kb + 1)"
    using kb(2,3) by (metis of_int_le_iff of_int_numeral of_int_power, metis of_int_less_iff of_int_numeral of_int_power)
  have bpos: "(0::rat) < of_int b" using b by simp
  have up: "q < pow2 (e0 + 1)"
  proof -
    have "q < 2 ^ (ka + 1) / of_int b" unfolding q using ra(2) bpos by (simp add: divide_strict_right_mono)
    also have "\<dots> \<le> 2 ^ (ka + 1) / 2 ^ kb" using rb(1) by (simp add: frac_le)
    also have "\<dots> = pow2 (int (ka + 1) - int kb)" by (simp only: pow2_diff_nat)
    finally show ?thesis by (simp add: e0_def algebra_simps)
  qed
  have low: "pow2 (e0 - 1) \<le> q"
  proof -
    have "pow2 (int ka - int (kb + 1)) = 2 ^ ka / 2 ^ (kb + 1)" by (simp only: pow2_diff_nat)
    also have "\<dots> \<le> of_int a / 2 ^ (kb + 1)" using ra(1) by (simp add: divide_right_mono)
    also have "\<dots> \<le> of_int a / of_int b" using rb(2) bpos a by (simp add: frac_le)
    finally show ?thesis by (simp add: e0_def q algebra_simps)
  qed
  have e: "f64_exponent q = (if pow2 e0 \<le> q then e0 else e0 - 1)"
    by (simp add: f64_exponent_def ab ka(1) kb(1) e0_def)
  show ?thesis
  proof (cases "pow2 e0 \<le> q")
    case True
    with e up show ?thesis by simp
  next
    case False
    with e low show ?thesis by simp
  qed
qed

lemma round_even_floor: "\<lfloor>x\<rfloor> \<le> round_even x \<and> round_even x \<le> \<lfloor>x\<rfloor> + 1"
  by (simp add: round_even_def Let_def)

lemma round_even_of_int: "round_even (of_int n) = n"
  by (simp add: round_even_def Let_def)

lemma round_even_ge: "of_int n \<le> x \<Longrightarrow> n \<le> round_even x"
proof -
  assume "of_int n \<le> x"
  then have "n \<le> \<lfloor>x\<rfloor>" by (simp add: le_floor_iff)
  with round_even_floor [of x] show ?thesis by linarith
qed

lemma round_even_le: "x \<le> of_int n \<Longrightarrow> round_even x \<le> n"
proof (cases "x = of_int n")
  case True
  then show ?thesis by (simp add: round_even_of_int)
next
  case False
  assume "x \<le> of_int n"
  with False have "x < of_int n" by simp
  then have "\<lfloor>x\<rfloor> < n" by (simp add: floor_less_iff)
  with round_even_floor [of x] show ?thesis by linarith
qed

lemma f64_pos:
  "0 < x \<Longrightarrow>
   f64 x = of_int (round_even (x * pow2 (52 - f64_exponent x))) * pow2 (f64_exponent x - 52)"
  by (simp add: f64_def Let_def)
lemma pow2_numeral_52: "pow2 52 = 4503599627370496" and pow2_numeral_53: "pow2 53 = 9007199254740992"
  by (simp_all add: pow2_def)

lemma pow2_shift: "x * pow2 a * pow2 (- a) = x"
  using pow2_cancel [of a] by (simp add: mult.assoc)

lemma f64_lower:
  assumes x: "0 < x" and n: "n \<le> 2 ^ 53" and le: "of_int n * pow2 j \<le> x"
  shows "of_int n * pow2 j \<le> f64 x"
proof -
  define e where "e = f64_exponent x"
  have eb: "pow2 e \<le> x" using f64_exponent_bounds [OF x] by (simp add: e_def)
  have fx: "f64 x = of_int (round_even (x * pow2 (52 - e))) * pow2 (- (52 - e))"
    using f64_pos [OF x] by (simp add: e_def)
  have p: "0 \<le> pow2 (52 - e)" "0 \<le> pow2 (- (52 - e))" "0 \<le> pow2 j"
    using pow2_pos less_imp_le by blast+
  show ?thesis
  proof (cases "0 \<le> j + (52 - e)")
    case True
    define N where "N = n * 2 ^ nat (j + (52 - e))"
    have "of_int N = of_int n * pow2 (j + (52 - e))"
      using True by (simp add: N_def pow2_def)
    also have "\<dots> = of_int n * pow2 j * pow2 (52 - e)"
      by (simp add: pow2_add)
    finally have N: "of_int N = of_int n * pow2 j * pow2 (52 - e)" .
    also have "\<dots> \<le> x * pow2 (52 - e)"
      using le p(1) by (rule mult_right_mono)
    finally have "N \<le> round_even (x * pow2 (52 - e))" by (rule round_even_ge)
    then have "(of_int N :: rat) \<le> of_int (round_even (x * pow2 (52 - e)))" by simp
    then have "of_int N * pow2 (- (52 - e)) \<le> f64 x"
      unfolding fx using p(2) by (rule mult_right_mono)
    then show ?thesis by (simp only: N pow2_shift)
  next
    case False
    then have je: "53 + j \<le> e" by simp
    have "of_int n \<le> (2::rat) ^ 53"
      using n by (metis of_int_le_iff of_int_numeral of_int_power)
    then have "of_int n * pow2 j \<le> 2 ^ 53 * pow2 j"
      using p(3) by (rule mult_right_mono)
    also have "\<dots> = pow2 (53 + j)" by (simp add: pow2_add pow2_numeral_53)
    also have "\<dots> \<le> pow2 e" using je by (rule pow2_mono)
    finally have lo: "of_int n * pow2 j \<le> pow2 e" .
    have "of_int (2 ^ 52) = pow2 (e + (52 - e))" by (simp add: pow2_numeral_52)
    also have "\<dots> = pow2 e * pow2 (52 - e)" by (rule pow2_add)
    also have "\<dots> \<le> x * pow2 (52 - e)" using eb p(1) by (rule mult_right_mono)
    finally have "2 ^ 52 \<le> round_even (x * pow2 (52 - e))" by (rule round_even_ge)
    then have "(of_int (2 ^ 52) :: rat) \<le> of_int (round_even (x * pow2 (52 - e)))"
      by (simp only: of_int_le_iff)
    then have "of_int (2 ^ 52) * pow2 (- (52 - e)) \<le> f64 x"
      unfolding fx using p(2) by (rule mult_right_mono)
    moreover have "of_int (2 ^ 52) * pow2 (- (52 - e)) = pow2 (52 + (- (52 - e)))"
      by (simp only: pow2_add) (simp add: pow2_numeral_52)
    ultimately have "pow2 e \<le> f64 x" by simp
    with lo show ?thesis by linarith
  qed
qed

lemma f64_upper:
  assumes x: "0 < x" and n: "n < 2 ^ 53" and le: "x \<le> of_int n * pow2 j"
  shows "f64 x \<le> of_int n * pow2 j"
proof -
  define e where "e = f64_exponent x"
  have eb: "pow2 e \<le> x" using f64_exponent_bounds [OF x] by (simp add: e_def)
  have fx: "f64 x = of_int (round_even (x * pow2 (52 - e))) * pow2 (- (52 - e))"
    using f64_pos [OF x] by (simp add: e_def)
  have p: "0 \<le> pow2 (52 - e)" "0 \<le> pow2 (- (52 - e))" "0 < pow2 j"
    using pow2_pos less_imp_le by blast+
  show ?thesis
  proof (cases "0 \<le> j + (52 - e)")
    case True
    define N where "N = n * 2 ^ nat (j + (52 - e))"
    have "of_int N = of_int n * pow2 (j + (52 - e))"
      using True by (simp add: N_def pow2_def)
    also have "\<dots> = of_int n * pow2 j * pow2 (52 - e)"
      by (simp add: pow2_add)
    finally have N: "of_int N = of_int n * pow2 j * pow2 (52 - e)" .
    have "x * pow2 (52 - e) \<le> of_int n * pow2 j * pow2 (52 - e)"
      using le p(1) by (rule mult_right_mono)
    then have "x * pow2 (52 - e) \<le> of_int N" by (simp only: N)
    then have "round_even (x * pow2 (52 - e)) \<le> N" by (rule round_even_le)
    then have "(of_int (round_even (x * pow2 (52 - e))) :: rat) \<le> of_int N" by simp
    then have "f64 x \<le> of_int N * pow2 (- (52 - e))"
      unfolding fx using p(2) by (rule mult_right_mono)
    then show ?thesis by (simp only: N pow2_shift)
  next
    case False
    then have je: "53 + j \<le> e" by simp
    have "of_int n < (2::rat) ^ 53"
      using n by (metis of_int_less_iff of_int_numeral of_int_power)
    then have "of_int n * pow2 j < 2 ^ 53 * pow2 j"
      using p(3) by (simp add: mult_strict_right_mono)
    also have "\<dots> = pow2 (53 + j)" by (simp add: pow2_add pow2_numeral_53)
    also have "\<dots> \<le> pow2 e" using je by (rule pow2_mono)
    finally have "of_int n * pow2 j < pow2 e" .
    with eb le show ?thesis by linarith
  qed
qed

lemma f64_zero: "f64 0 = 0"
  by (simp add: f64_def)

lemma f64_between:
  assumes "0 \<le> x" and "n1 \<le> 2 ^ 53" and "of_int n1 * pow2 j1 \<le> x"
    and "n2 < 2 ^ 53" and "x \<le> of_int n2 * pow2 j2"
  shows "of_int n1 * pow2 j1 \<le> f64 x \<and> f64 x \<le> of_int n2 * pow2 j2"
proof (cases "x = 0")
  case True
  with assms show ?thesis by (simp add: f64_zero)
next
  case False
  with assms(1) have "0 < x" by simp
  with assms show ?thesis by (simp add: f64_lower f64_upper)
qed

lemma f64_of_int:
  assumes "0 \<le> n" and "n < 2 ^ 53"
  shows "f64 (of_int n) = of_int n"
proof -
  have "of_int n * pow2 0 \<le> f64 (of_int n) \<and> f64 (of_int n) \<le> of_int n * pow2 0"
    using assms by (intro f64_between) (simp_all add: pow2_def)
  then show ?thesis by (simp add: pow2_def)
qed
section \<open>The age formatter below the months bucket\<close>

lemma quot_nonneg: "0 \<le> a \<Longrightarrow> 0 < b \<Longrightarrow> quot a b = a div b"
  by (cases "a = 0") (simp_all add: quot_def)

lemma rem_nonneg: "0 \<le> a \<Longrightarrow> 0 < b \<Longrightarrow> rem a b = a mod b"
  by (simp add: rem_def quot_nonneg minus_mult_div_eq_mod)

lemma pow2_neg_nat: "pow2 (- int p) = 1 / 2 ^ p"
  by (simp add: pow2_powi power_int_minus inverse_eq_divide)

lemma below_one:
  "of_int (k * 2 ^ p - 1) * pow2 (- int p) = of_int k - pow2 (- int p)"
  by (simp add: pow2_neg_nat field_simps)

lemma fraction_bound:
  fixes r U :: int
  assumes "0 \<le> r" "r < U" "U \<le> 2 ^ p"
  shows "0 \<le> (of_int r / of_int U :: rat) \<and> (of_int r / of_int U :: rat) \<le> 1 - pow2 (- int p)"
proof -
  from assms have U: "(0::rat) < of_int U" by simp
  have "(of_int U :: rat) \<le> 2 ^ p"
    using assms(3) by (metis of_int_le_iff of_int_numeral of_int_power)
  then have inv: "pow2 (- int p) \<le> 1 / of_int U"
    using U by (simp add: pow2_neg_nat frac_le)
  from assms have "(of_int r :: rat) \<le> of_int U - 1"
    by (metis of_int_1 of_int_diff of_int_le_iff zle_diff1_eq)
  then have "(of_int r / of_int U :: rat) \<le> (of_int U - 1) / of_int U"
    using U by (simp add: divide_right_mono)
  also have "\<dots> = 1 - 1 / of_int U"
    using U by (simp add: field_simps)
  finally have "(of_int r / of_int U :: rat) \<le> 1 - pow2 (- int p)"
    using inv by linarith
  moreover have "0 \<le> (of_int r / of_int U :: rat)"
    using assms(1) U by simp
  ultimately show ?thesis by blast
qed

lemma whole_plus_fraction:
  fixes w r U :: int
  assumes "0 \<le> w" "0 \<le> r" "r < U" "U \<le> 2 ^ p" "(w + 1) * 2 ^ p \<le> 2 ^ 53"
  shows "of_int w \<le> f64 (f64 (of_int w) + f64 (f64 (of_int r) / of_int U)) \<and>
         f64 (f64 (of_int w) + f64 (f64 (of_int r) / of_int U)) \<le> of_int w + 1 - pow2 (- int p)"
proof -
  have p1: "(1::int) \<le> 2 ^ p" by simp
  from assms(1) p1 have "w + 1 \<le> (w + 1) * 2 ^ p"
    by (simp add: mult_le_cancel_left1)
  with assms(5) have w: "w < 2 ^ 53" by linarith
  from assms(1) have "1 * (2::int) ^ p \<le> (w + 1) * 2 ^ p"
    by (intro mult_right_mono) simp_all
  with assms(3,4,5) have U53: "U \<le> 2 ^ 53" and r: "r < 2 ^ 53" by linarith+
  have fw: "f64 (of_int w) = of_int w" using assms(1) w by (rule f64_of_int)
  have fr: "f64 (of_int r) = of_int r" using assms(2) r by (rule f64_of_int)
  define q :: rat where "q = of_int r / of_int U"
  have q: "0 \<le> q" "q \<le> 1 - pow2 (- int p)"
    using fraction_bound [OF assms(2,3,4)] by (simp_all add: q_def)
  have top: "(1 * 2 ^ p - 1 :: int) < 2 ^ 53"
    using assms(4) U53 assms(3) assms(2) assms(5) \<open>1 * (2::int) ^ p \<le> (w + 1) * 2 ^ p\<close> by linarith
  have "of_int 0 * pow2 0 \<le> f64 q \<and> f64 q \<le> of_int (1 * 2 ^ p - 1) * pow2 (- int p)"
    using q top by (intro f64_between) (simp_all only: below_one, simp_all)
  then have fq: "0 \<le> f64 q" "f64 q \<le> 1 - pow2 (- int p)"
    by (simp_all only: below_one, simp_all)
  define s where "s = of_int w + f64 q"
  have s: "0 \<le> s" "of_int w * pow2 0 \<le> s" "s \<le> of_int ((w + 1) * 2 ^ p - 1) * pow2 (- int p)"
    using fq assms(1) by (simp_all only: below_one s_def, simp_all add: pow2_def)
  have top2: "(w + 1) * 2 ^ p - 1 < (2::int) ^ 53" using assms(5) by linarith
  have "of_int w * pow2 0 \<le> f64 s \<and> f64 s \<le> of_int ((w + 1) * 2 ^ p - 1) * pow2 (- int p)"
    using s top2 w by (intro f64_between) simp_all
  then have "of_int w \<le> f64 s \<and> f64 s \<le> of_int w + 1 - pow2 (- int p)"
    by (simp only: below_one) (simp add: pow2_def)
  then show ?thesis by (simp add: fw fr s_def q_def)
qed

lemma unit_values:
  "Second = 1000000000" "Minute = 60000000000" "Hour = 3600000000000"
  by (simp_all add: Second_def Minute_def Hour_def)

lemma Seconds_bounds:
  assumes "0 \<le> d" "d div Second < 8388607"
  shows "of_int (d div Second) \<le> Seconds d \<and> Seconds d \<le> of_int (d div Second) + 1 - pow2 (- 30)"
proof -
  have "of_int (d div Second) \<le>
          f64 (f64 (of_int (d div Second)) + f64 (f64 (of_int (d mod Second)) / of_int Second)) \<and>
        f64 (f64 (of_int (d div Second)) + f64 (f64 (of_int (d mod Second)) / of_int Second))
          \<le> of_int (d div Second) + 1 - pow2 (- int 30)"
    using assms by (intro whole_plus_fraction) (simp_all add: unit_values pos_imp_zdiv_nonneg_iff)
  then show ?thesis
    using assms(1) by (simp add: Seconds_def quot_nonneg rem_nonneg unit_values)
qed

lemma Minutes_bounds:
  assumes "0 \<le> d" "d div Minute < 131071"
  shows "of_int (d div Minute) \<le> Minutes d \<and> Minutes d \<le> of_int (d div Minute) + 1 - pow2 (- 36)"
proof -
  have "of_int (d div Minute) \<le>
          f64 (f64 (of_int (d div Minute)) + f64 (f64 (of_int (d mod Minute)) / of_int Minute)) \<and>
        f64 (f64 (of_int (d div Minute)) + f64 (f64 (of_int (d mod Minute)) / of_int Minute))
          \<le> of_int (d div Minute) + 1 - pow2 (- int 36)"
    using assms by (intro whole_plus_fraction) (simp_all add: unit_values pos_imp_zdiv_nonneg_iff)
  then show ?thesis
    using assms(1) by (simp add: Minutes_def quot_nonneg rem_nonneg unit_values)
qed

lemma Hours_bounds:
  assumes "0 \<le> d" "d div Hour < 2047"
  shows "of_int (d div Hour) \<le> Hours d \<and> Hours d \<le> of_int (d div Hour) + 1 - pow2 (- 42)"
proof -
  have "of_int (d div Hour) \<le>
          f64 (f64 (of_int (d div Hour)) + f64 (f64 (of_int (d mod Hour)) / of_int Hour)) \<and>
        f64 (f64 (of_int (d div Hour)) + f64 (f64 (of_int (d mod Hour)) / of_int Hour))
          \<le> of_int (d div Hour) + 1 - pow2 (- int 42)"
    using assms by (intro whole_plus_fraction) (simp_all add: unit_values pos_imp_zdiv_nonneg_iff)
  then show ?thesis
    using assms(1) by (simp add: Hours_def quot_nonneg rem_nonneg unit_values)
qed
lemma int_div_less:
  fixes a b k :: int
  assumes "0 < b" "a < k * b"
  shows "a div b < k"
proof -
  have e: "b * (a div b) + a mod b = a" by (rule mult_div_mod_eq)
  have m: "0 \<le> a mod b" using assms(1) by simp
  have "k * b = b * k" by (rule mult.commute)
  with e m assms(2) have "b * (a div b) < b * k" by linarith
  then show ?thesis using assms(1) by (simp only: mult_less_cancel_left_pos)
qed

lemma int_div_ge:
  fixes a b k :: int
  assumes "0 < b" "k * b \<le> a"
  shows "k \<le> a div b"
proof -
  have e: "b * (a div b) + a mod b = a" by (rule mult_div_mod_eq)
  have m: "a mod b < b" using assms(1) by simp
  have "k * b = b * k" by (rule mult.commute)
  moreover have "b * (a div b + 1) = b * (a div b) + b" by (simp add: algebra_simps)
  ultimately have "b * k < b * (a div b + 1)" using e m assms(2) by linarith
  then have "k < a div b + 1" using assms(1) by (simp only: mult_less_cancel_left_pos)
  then show ?thesis by simp
qed

lemma trunc_int_unique: "of_int k \<le> x \<Longrightarrow> x < of_int k + 1 \<Longrightarrow> 0 \<le> k \<Longrightarrow> trunc_int x = k"
proof -
  assume a: "of_int k \<le> x" "x < of_int k + 1" "0 \<le> k"
  then have "0 \<le> x" by (metis of_int_0_le_iff order_trans)
  moreover from a have "\<lfloor>x\<rfloor> = k" by (intro floor_unique) simp_all
  ultimately show ?thesis by (simp add: trunc_int_def)
qed

lemma divided_bounds:
  fixes h c :: int and H :: rat
  assumes "0 \<le> h" "of_int h \<le> H" "H \<le> of_int h + 1 - pow2 (- int p)"
    and "0 < c" "c \<le> 2 ^ s" "(h div c + 1) * 2 ^ (p + s) \<le> 2 ^ 53"
  shows "of_int (h div c) \<le> f64 (H / of_int c) \<and> f64 (H / of_int c) < of_int (h div c) + 1"
proof -
  define k where "k = h div c"
  have k0: "0 \<le> k" using assms(1,4) by (simp add: k_def pos_imp_zdiv_nonneg_iff)
  have eq: "c * k + h mod c = h" by (simp add: k_def)
  have m: "0 \<le> h mod c" "h mod c < c" using assms(4) by simp_all
  have "c * k \<le> h" "h + 1 \<le> c * k + c"
    using eq m by linarith+
  then have kc: "k * c \<le> h" "h + 1 \<le> (k + 1) * c"
    by (simp_all add: algebra_simps)
  have rc: "(0::rat) < of_int c" using assms(4) by simp
  have r1: "(of_int k * of_int c :: rat) \<le> of_int h"
    using kc(1) by (metis of_int_le_iff of_int_mult)
  have r2: "(of_int h + 1 :: rat) \<le> (of_int k + 1) * of_int c"
    using kc(2) by (metis of_int_1 of_int_add of_int_le_iff of_int_mult)
  have H0: "0 \<le> H" using assms(1,2) by (metis of_int_0_le_iff order_trans)
  have low: "of_int k * pow2 0 \<le> H / of_int c"
    using r1 assms(2) rc by (simp add: pow2_def pos_le_divide_eq)
  have "(of_int c :: rat) \<le> 2 ^ s"
    using assms(5) by (metis of_int_le_iff of_int_numeral of_int_power)
  then have "pow2 (- int (p + s)) * of_int c \<le> pow2 (- int (p + s)) * 2 ^ s"
    using pow2_pos [of "- int (p + s)"] by (simp add: mult_left_mono)
  also have "\<dots> = pow2 (- int p)"
    by (simp only: pow2_neg_nat power_add) simp
  finally have small: "pow2 (- int (p + s)) * of_int c \<le> pow2 (- int p)" .
  have "H \<le> (of_int k + 1) * of_int c - pow2 (- int (p + s)) * of_int c"
    using assms(3) r2 small by linarith
  also have "\<dots> = (of_int (k + 1) - pow2 (- int (p + s))) * of_int c"
    by (simp add: algebra_simps)
  finally have "H / of_int c \<le> of_int (k + 1) - pow2 (- int (p + s))"
    using rc by (simp add: pos_divide_le_eq)
  then have up: "H / of_int c \<le> of_int ((k + 1) * 2 ^ (p + s) - 1) * pow2 (- int (p + s))"
    by (simp only: below_one)
  have top: "(k + 1) * 2 ^ (p + s) - 1 < (2::int) ^ 53"
    using assms(6) by (simp add: k_def)
  have "(1::int) \<le> 2 ^ (p + s)" by simp
  with k0 have "k + 1 \<le> (k + 1) * 2 ^ (p + s)" by (simp add: mult_le_cancel_left1)
  with assms(6) have k53: "k \<le> 2 ^ 53" by (simp add: k_def)
  have H1: "0 \<le> H / of_int c" using H0 rc by simp
  have "of_int k * pow2 0 \<le> f64 (H / of_int c) \<and>
        f64 (H / of_int c) \<le> of_int ((k + 1) * 2 ^ (p + s) - 1) * pow2 (- int (p + s))"
    using H1 k53 low top up by (rule f64_between)
  then have "of_int k \<le> f64 (H / of_int c) \<and>
        f64 (H / of_int c) \<le> of_int (k + 1) - pow2 (- int (p + s))"
    by (simp only: below_one) (simp add: pow2_def)
  with pow2_pos [of "- int (p + s)"] show ?thesis
    by (simp add: k_def)
qed

text \<open>
  Below 30 days the floating-point detour is harmless: the formatter prints the bucket
  and the truncated quotient the bucket table prescribes.
\<close>

lemma formatAge_below_months:
  assumes "0 \<le> d" "d < 30 * (24 * Hour)"
  shows "formatAge d = spec_formatAge d"
proof -
  have hpos: "0 < Hour" "0 < Minute" "0 < Second" by (simp_all add: unit_values)
  have h0: "0 \<le> d div Hour" using assms(1) hpos by (simp add: pos_imp_zdiv_nonneg_iff)
  have h720: "d div Hour < 720"
    by (rule int_div_less [OF hpos(1)]) (use assms(2) in simp)
  have hb: "of_int (d div Hour) \<le> Hours d" "Hours d \<le> of_int (d div Hour) + 1 - pow2 (- int 42)"
    using Hours_bounds [OF assms(1)] h720 by simp_all
  have secs: "trunc_int (Seconds d) = d div Second" if "d < Minute"
  proof -
    have "d div Second < 60"
      by (rule int_div_less [OF hpos(3)]) (use that in \<open>simp add: unit_values\<close>)
    then have "of_int (d div Second) \<le> Seconds d \<and>
               Seconds d \<le> of_int (d div Second) + 1 - pow2 (- 30)"
      using assms(1) by (intro Seconds_bounds) simp_all
    with pow2_pos [of "- 30"] show ?thesis
      using assms(1) hpos by (intro trunc_int_unique) (simp_all add: pos_imp_zdiv_nonneg_iff)
  qed
  have mins: "trunc_int (Minutes d) = d div Minute" if "d < Hour"
  proof -
    have "d div Minute < 60"
      by (rule int_div_less [OF hpos(2)]) (use that in \<open>simp add: unit_values\<close>)
    then have "of_int (d div Minute) \<le> Minutes d \<and>
               Minutes d \<le> of_int (d div Minute) + 1 - pow2 (- 36)"
      using assms(1) by (intro Minutes_bounds) simp_all
    with pow2_pos [of "- 36"] show ?thesis
      using assms(1) hpos by (intro trunc_int_unique) (simp_all add: pos_imp_zdiv_nonneg_iff)
  qed
  have hours: "trunc_int (Hours d) = d div Hour"
    using hb pow2_pos [of "- int 42"] h0 by (intro trunc_int_unique) simp_all
  have days: "trunc_int (f64 (Hours d / 24)) = d div (24 * Hour)" if "d < 7 * (24 * Hour)"
  proof -
    have h168: "d div Hour < 168"
      by (rule int_div_less [OF hpos(1)]) (use that in simp)
    have "d div Hour div 24 < 7"
      by (rule int_div_less) (use h168 in simp_all)
    then have "(d div Hour div 24 + 1) * 2 ^ (42 + 5) \<le> (2::int) ^ 53" by simp
    with h0 hb have "of_int (d div Hour div 24) \<le> f64 (Hours d / of_int 24) \<and>
        f64 (Hours d / of_int 24) < of_int (d div Hour div 24) + 1"
      by (intro divided_bounds [where p = 42 and s = 5]) simp_all
    then have "trunc_int (f64 (Hours d / 24)) = d div Hour div 24"
      using h0 by (intro trunc_int_unique) (simp_all add: pos_imp_zdiv_nonneg_iff)
    also have "\<dots> = d div (Hour * 24)" by (simp add: zdiv_zmult2_eq)
    finally show ?thesis by (simp add: mult.commute)
  qed
  have weeks: "trunc_int (f64 (Hours d / (24 * 7))) = d div (7 * (24 * Hour))"
  proof -
    have "d div Hour div 168 < 5"
      by (rule int_div_less) (use h720 in simp_all)
    then have "(d div Hour div 168 + 1) * 2 ^ (42 + 8) \<le> (2::int) ^ 53" by simp
    with h0 hb have "of_int (d div Hour div 168) \<le> f64 (Hours d / of_int 168) \<and>
        f64 (Hours d / of_int 168) < of_int (d div Hour div 168) + 1"
      by (intro divided_bounds [where p = 42 and s = 8]) simp_all
    then have "trunc_int (f64 (Hours d / (24 * 7))) = d div Hour div 168"
      using h0 by (intro trunc_int_unique) (simp_all add: pos_imp_zdiv_nonneg_iff)
    also have "\<dots> = d div (Hour * 168)" by (simp add: zdiv_zmult2_eq)
    finally show ?thesis by (simp add: mult.commute)
  qed
  have m60: "60 * Second = Minute" "60 * Minute = Hour" by (simp_all add: unit_values)
  show ?thesis
    using assms(2) secs mins hours days weeks
    by (simp add: formatAge_def spec_formatAge_def m60)
qed

section \<open>Valid JSON of another shape\<close>

lemma parseNamespaces_empty:
  "Unmarshal_namespaceList w s = Inr \<lparr>nl_Items = []\<rparr> \<Longrightarrow> parseNamespaces w s = Inr []"
  by (simp add: parseNamespaces_def)

lemma parsePods_empty:
  "Unmarshal_podList w s = Inr \<lparr>pl_Items = []\<rparr> \<Longrightarrow> parsePods w s = Inr []"
  by (simp add: parsePods_def)

lemma parseContexts_empty:
  "Unmarshal_kubeConfigView w s = Inr \<lparr>kv_Contexts = []\<rparr> \<Longrightarrow> parseContexts w s = Inr []"
  by (simp add: parseContexts_def)

text \<open>
  C10, as the code has it. When \<open>json.Unmarshal\<close> accepts the stdout of a process that
  exited with code 0 and fills in no items (which is what it does for \<open>null\<close>, \<open>{}\<close> and
  objects without the \<open>items\<close> or \<open>contexts\<close> field), the decoder returns the empty list,
  the envelope carries it as parsed data, and stderr is the process's stderr with
  nothing appended.
\<close>

theorem empty_decode_is_success:
  "(ExitCode (fst (Run w [''config'', ''view'', ''-o'', ''json''] defaultTimeout a)) = 0 \<and>
    Unmarshal_kubeConfigView w
      (Stdout (fst (Run w [''config'', ''view'', ''-o'', ''json''] defaultTimeout a)))
      = Inr \<lparr>kv_Contexts = []\<rparr>
    \<longrightarrow> parseContexts w (Stdout (fst (Run w [''config'', ''view'', ''-o'', ''json''] defaultTimeout a)))
          = Inr [] \<and>
        fst (ListContexts w a)
          = (fst (Run w [''config'', ''view'', ''-o'', ''json''] defaultTimeout a))
              \<lparr>ParsedData := Some (PContexts [])\<rparr>) \<and>
   (validateContextName c = None \<and>
    ExitCode (fst (Run w (with_context_prefix c [''get'', ''ns'', ''-o'', ''json''])
                     defaultTimeout a)) = 0 \<and>
    Unmarshal_namespaceList w
      (Stdout (fst (Run w (with_context_prefix c [''get'', ''ns'', ''-o'', ''json''])
                      defaultTimeout a))) = Inr \<lparr>nl_Items = []\<rparr>
    \<longrightarrow> parseNamespaces w
          (Stdout (fst (Run w (with_context_prefix c [''get'', ''ns'', ''-o'', ''json''])
                      defaultTimeout a))) = Inr [] \<and>
        fst (ListNamespaces w c a)
          = (fst (Run w (with_context_prefix c [''get'', ''ns'', ''-o'', ''json'']) defaultTimeout a))
              \<lparr>ParsedData := Some (PNamespaces [])\<rparr>) \<and>
   (validateNamespace n = None \<and> validateContextName c = None \<and>
    ExitCode (fst (Run w (with_context_prefix c [''get'', ''pods'', ''-n'', n, ''-o'', ''json''])
                     defaultTimeout a)) = 0 \<and>
    Unmarshal_podList w
      (Stdout (fst (Run w (with_context_prefix c [''get'', ''pods'', ''-n'', n, ''-o'', ''json''])
                      defaultTimeout a))) = Inr \<lparr>pl_Items = []\<rparr>
    \<longrightarrow> parsePods w
          (Stdout (fst (Run w (with_context_prefix c [''get'', ''pods'', ''-n'', n, ''-o'', ''json''])
                      defaultTimeout a))) = Inr [] \<and>
        fst (ListPods w c n a)
          = (fst (Run w (with_context_prefix c [''get'', ''pods'', ''-n'', n, ''-o'', ''json''])
                    defaultTimeout a))
              \<lparr>ParsedData := Some (PPods [])\<rparr>)"
proof -
  have a1: "ExitCode (fst (Run w [''config'', ''view'', ''-o'', ''json''] defaultTimeout a)) = 0 \<and>
    Unmarshal_kubeConfigView w
      (Stdout (fst (Run w [''config'', ''view'', ''-o'', ''json''] defaultTimeout a)))
      = Inr \<lparr>kv_Contexts = []\<rparr>
    \<longrightarrow> parseContexts w (Stdout (fst (Run w [''config'', ''view'', ''-o'', ''json''] defaultTimeout a)))
          = Inr [] \<and>
        fst (ListContexts w a)
          = (fst (Run w [''config'', ''view'', ''-o'', ''json''] defaultTimeout a))
              \<lparr>ParsedData := Some (PContexts [])\<rparr>"
    by (simp add: ListContexts_result parseContexts_empty)
  have a2: "validateContextName c = None \<and>
    ExitCode (fst (Run w (with_context_prefix c [''get'', ''ns'', ''-o'', ''json''])
                     defaultTimeout a)) = 0 \<and>
    Unmarshal_namespaceList w
      (Stdout (fst (Run w (with_context_prefix c [''get'', ''ns'', ''-o'', ''json''])
                      defaultTimeout a))) = Inr \<lparr>nl_Items = []\<rparr>
    \<longrightarrow> parseNamespaces w
          (Stdout (fst (Run w (with_context_prefix c [''get'', ''ns'', ''-o'', ''json''])
                      defaultTimeout a))) = Inr [] \<and>
        fst (ListNamespaces w c a)
          = (fst (Run w (with_context_prefix c [''get'', ''ns'', ''-o'', ''json'']) defaultTimeout a))
              \<lparr>ParsedData := Some (PNamespaces [])\<rparr>"
    by (simp add: ListNamespaces_result parseNamespaces_empty)
  have a3: "validateNamespace n = None \<and> validateContextName c = None \<and>
    ExitCode (fst (Run w (with_context_prefix c [''get'', ''pods'', ''-n'', n, ''-o'', ''json''])
                     defaultTimeout a)) = 0 \<and>
    Unmarshal_podList w
      (Stdout (fst (Run w (with_context_prefix c [''get'', ''pods'', ''-n'', n, ''-o'', ''json''])
                      defaultTimeout a))) = Inr \<lparr>pl_Items = []\<rparr>
    \<longrightarrow> parsePods w
          (Stdout (fst (Run w (with_context_prefix c [''get'', ''pods'', ''-n'', n, ''-o'', ''json''])
                      defaultTimeout a))) = Inr [] \<and>
        fst (ListPods w c n a)
          = (fst (Run w (with_context_prefix c [''get'', ''pods'', ''-n'', n, ''-o'', ''json''])
                    defaultTimeout a))
              \<lparr>ParsedData := Some (PPods [])\<rparr>"
    by (simp add: ListPods_result parsePods_empty)
  from a1 a2 a3 show ?thesis by blast
qed

lemma sample_unmarshal_null:
  "Unmarshal_kubeConfigView (sample_env out) ''null'' = Inr \<lparr>kv_Contexts = []\<rparr>"
  "Unmarshal_namespaceList (sample_env out) ''null'' = Inr \<lparr>nl_Items = []\<rparr>"
  "Unmarshal_podList (sample_env out) ''null'' = Inr \<lparr>pl_Items = []\<rparr>"
  by (simp_all add: sample_env_def sample_unmarshal_def)

theorem empty_decode_is_success_witness:
  "validateContextName ''prod'' = None \<and> validateNamespace ''default'' = None \<and>
   ExitCode (fst (Run (sample_env ''null'') [''config'', ''view'', ''-o'', ''json'']
                    defaultTimeout NewApp)) = 0 \<and>
   parseContexts (sample_env ''null'') ''null'' = Inr [] \<and>
   ParsedData (fst (ListContexts (sample_env ''null'') NewApp)) = Some (PContexts []) \<and>
   Stderr (fst (ListContexts (sample_env ''null'') NewApp)) = [] \<and>
   parseNamespaces (sample_env ''null'') ''null'' = Inr [] \<and>
   ParsedData (fst (ListNamespaces (sample_env ''null'') ''prod'' NewApp)) = Some (PNamespaces []) \<and>
   Stderr (fst (ListNamespaces (sample_env ''null'') ''prod'' NewApp)) = [] \<and>
   parsePods (sample_env ''null'') ''null'' = Inr [] \<and>
   ParsedData (fst (ListPods (sample_env ''null'') ''prod'' ''default'' NewApp)) = Some (PPods []) \<and>
   Stderr (fst (ListPods (sample_env ''null'') ''prod'' ''default'' NewApp)) = []"
  using empty_decode_is_success [of "sample_env ''null''" NewApp "''prod''" "''default''"]
  by (simp add: sample_run sample_unmarshal_null validateContextName_prod
      validateNamespace_default)

lemma sample_unmarshal_array:
  "Unmarshal_namespaceList (sample_env out) ''[]''
     = Inl ''json: cannot unmarshal array into Go value of type main.namespaceList''"
  by (simp add: sample_env_def sample_unmarshal_def)

text \<open>
  The claim C10 as stated fails: the text \<open>[]\<close> is valid JSON of an unexpected shape,
  \<open>json.Unmarshal\<close> rejects an array for a struct, and the envelope of the process that
  exited with code 0 has no parsed data and a \<open>parse error\<close> line in stderr.
\<close>

theorem array_output_is_parse_error:
  "validateContextName [] = None \<and>
   ExitCode (fst (ListNamespaces (sample_env ''[]'') [] NewApp)) = 0 \<and>
   Stdout (fst (ListNamespaces (sample_env ''[]'') [] NewApp)) = ''[]'' \<and>
   parseNamespaces (sample_env ''[]'') ''[]''
     = Inl ''json: cannot unmarshal array into Go value of type main.namespaceList'' \<and>
   ParsedData (fst (ListNamespaces (sample_env ''[]'') [] NewApp)) = None \<and>
   Stderr (fst (ListNamespaces (sample_env ''[]'') [] NewApp))
     = ''parse error: json: cannot unmarshal array into Go value of type main.namespaceList''"
  by (simp add: ListNamespaces_result validateContextName_empty sample_run parseNamespaces_def
      sample_unmarshal_array appendParseError_def Let_def)

section \<open>Timeouts\<close>

lemma timeout_message:
  "deadline_exceeded (exec w args timeout) \<Longrightarrow> out_stderr (exec w args timeout) = [] \<Longrightarrow>
   Stderr (fst (Run w args timeout a)) = ''command timed out''"
  by (simp add: Run_fst)

lemma stderr_kept:
  "out_stderr (exec w args timeout) \<noteq> [] \<Longrightarrow>
   Stderr (fst (Run w args timeout a)) = out_stderr (exec w args timeout)"
  by (simp add: Run_fst)

lemma failure_classification:
  "run_err (exec w args timeout) = OtherError \<or>
   (\<exists>code. run_err (exec w args timeout) = ExitError code \<and> code \<noteq> 0) \<Longrightarrow>
   ExitCode (fst (Run w args timeout a)) \<noteq> 0"
  by (auto simp: Run_fst)

text \<open>
  C8 at a process that exits with status 0 just as its deadline passes: the deadline
  has expired, the process wrote nothing to stderr, and the envelope says
  \<open>command timed out\<close> with exit code 0, which is the success classification.
\<close>

theorem late_exit_reported_as_success:
  "deadline_exceeded (exec late_exit_env [''delete'', ''pod'', ''web-0'', ''-n'', ''default''] defaultTimeout) \<and>
   out_stderr (exec late_exit_env [''delete'', ''pod'', ''web-0'', ''-n'', ''default''] defaultTimeout) = [] \<and>
   Stderr (fst (Run late_exit_env [''delete'', ''pod'', ''web-0'', ''-n'', ''default''] defaultTimeout NewApp))
     = ''command timed out'' \<and>
   ExitCode (fst (Run late_exit_env [''delete'', ''pod'', ''web-0'', ''-n'', ''default''] defaultTimeout NewApp))
     = 0 \<and>
   ExitCode (fst (DeletePod late_exit_env [] ''default'' ''web-0'' NewApp)) = 0 \<and>
   Stderr (fst (DeletePod late_exit_env [] ''default'' ''web-0'' NewApp)) = ''command timed out''"
  by (simp add: Run_fst late_exit_env_def late_exit_outcome_def sample_env_def
      DeletePod_valid validateNamespace_default validatePodName_web validateContextName_empty
      with_context_prefix_def)

section \<open>Age formatting\<close>

lemma formatAge_examples:
  "formatAge (45 * Second) = ''45s''"
  "formatAge (90 * Second) = ''1m''"
  "formatAge (25 * Hour) = ''1d''"
  "formatAge (10 * (24 * Hour)) = ''1w''"
  "formatAge (40 * (24 * Hour)) = ''1mo''"
  by code_simp+

text \<open>
  C4 at one nanosecond less than 180 days: the duration is in the months bucket and
  integer division by 30 days gives 5, but \<open>Hours\<close> rounds the floating-point sum
  \<open>4319 + 3599999999999/3600000000000\<close> up to 4320, and the formatter prints \<open>6mo\<close>.
\<close>

theorem age_rounds_up_to_six_months:
  "(0::int) \<le> 15551999999999999 \<and>
   15551999999999999 < 180 * (24 * Hour) \<and>
   15551999999999999 div (30 * (24 * Hour)) = 5 \<and>
   spec_formatAge 15551999999999999 = ''5mo'' \<and>
   Hours 15551999999999999 = 4320 \<and>
   formatAge 15551999999999999 = ''6mo''"
  by code_simp

end
